theory Spec2Isabelle
  imports Complex_Main
begin

section \<open>Configuration (config.py)\<close>

datatype DifficultyLevel = BASIC | STOCHASTIC

definition BASIC_PATIENTS_PER_ROUND :: "int \<times> int" where
  "BASIC_PATIENTS_PER_ROUND = (3, 4)"

definition STOCH_PATIENTS_PER_ROUND :: "int \<times> int" where
  "STOCH_PATIENTS_PER_ROUND = (4, 7)"

definition BASIC_SEVERE_PROB :: real where
  "BASIC_SEVERE_PROB = 0.25"

definition STOCH_SEVERE_PROB :: real where
  "STOCH_SEVERE_PROB = 0.45"

definition BASIC_DETERIORATE_PROB :: real where
  "BASIC_DETERIORATE_PROB = 0.15"

definition STOCH_DETERIORATE_PROB :: real where
  "STOCH_DETERIORATE_PROB = 0.35"

definition MAX_BEDS :: int where
  "MAX_BEDS = 5"

definition MAX_STAFF_CAPACITY :: int where
  "MAX_STAFF_CAPACITY = 4"

definition INITIAL_SURVIVAL_SCORE :: real where
  "INITIAL_SURVIVAL_SCORE = 100.0"

definition INITIAL_STAFF_STRESS :: real where
  "INITIAL_STAFF_STRESS = 10.0"

definition INITIAL_REPUTATION :: real where
  "INITIAL_REPUTATION = 60.0"

section \<open>Data model (game_state.py)\<close>

text \<open>
  Python floats are modelled as exact reals, a float literal standing for its
  decimal value, so rounding and overflow of floats are outside the model; Python
  ints are \<open>int\<close>. A dataclass is a record, and an object is its value. The field
  \<open>id\<close> of a patient is called \<open>patient_id\<close>, since \<open>id\<close> is the identity
  function of HOL, and the field \<open>notes\<close> of a round summary \<open>summary_notes\<close>,
  since \<open>notes\<close> is a keyword. A leading underscore of a source name is dropped.
\<close>

datatype SeverityLevel = MILD | MODERATE | SEVERE | CRITICAL

datatype TriageDecision = TREAT_NOW | MONITOR | DEFER | TRANSFER

record Patient =
  patient_id :: int
  name :: string
  severity_visible :: SeverityLevel
  severity_hidden_true :: SeverityLevel
  arrival_round :: int
  is_treated :: bool
  is_alive :: bool
  has_left :: bool

record HospitalState =
  available_beds :: int
  staff_capacity_this_round :: int
  survival_score :: real
  staff_stress :: real
  reputation :: real

text \<open>
  The decision map is a Python dict: an association list in insertion order, which
  is the order in which the engine walks it.
\<close>

record RoundSummary =
  round_number :: int
  decisions :: "(int \<times> TriageDecision) list"
  patients_treated :: "int list"
  patients_died :: "int list"
  patients_deteriorated :: "int list"
  summary_notes :: "string list"

record GameState =
  difficulty :: DifficultyLevel
  current_round :: int
  patients :: "Patient list"
  history :: "RoundSummary list"
  hospital :: HospitalState
  next_patient_id :: int

definition new_Patient ::
  "int \<Rightarrow> string \<Rightarrow> SeverityLevel \<Rightarrow> SeverityLevel \<Rightarrow> int \<Rightarrow> Patient" where
  "new_Patient i n vis tru arr =
     \<lparr>patient_id = i, name = n, severity_visible = vis, severity_hidden_true = tru,
      arrival_round = arr, is_treated = False, is_alive = True, has_left = False\<rparr>"

definition new_HospitalState :: HospitalState where
  "new_HospitalState =
     \<lparr>available_beds = MAX_BEDS, staff_capacity_this_round = MAX_STAFF_CAPACITY,
      survival_score = INITIAL_SURVIVAL_SCORE, staff_stress = INITIAL_STAFF_STRESS,
      reputation = INITIAL_REPUTATION\<rparr>"

definition new_RoundSummary :: "int \<Rightarrow> RoundSummary" where
  "new_RoundSummary r =
     \<lparr>round_number = r, decisions = [], patients_treated = [], patients_died = [],
      patients_deteriorated = [], summary_notes = []\<rparr>"

definition new_GameState :: "DifficultyLevel \<Rightarrow> GameState" where
  "new_GameState d =
     \<lparr>difficulty = d, current_round = 1, patients = [], history = [],
      hospital = new_HospitalState, next_patient_id = 1\<rparr>"

definition add_round_summary :: "GameState \<Rightarrow> RoundSummary \<Rightarrow> GameState" where
  "add_round_summary gs summary = gs\<lparr>history := history gs @ [summary]\<rparr>"

definition increment_round :: "GameState \<Rightarrow> GameState" where
  "increment_round gs =
     gs\<lparr>current_round := current_round gs + 1,
        hospital := (hospital gs)\<lparr>staff_capacity_this_round := MAX_STAFF_CAPACITY\<rparr>\<rparr>"

text \<open>
  \<open>get_patient_by_id\<close> returns the first patient of the roster with the given id.
  The Python returns a reference to the object in the roster, which the engine then
  mutates; the model returns the position in the roster together with the patient,
  and a mutation is a list update at that position.
\<close>

fun find_patient :: "Patient list \<Rightarrow> int \<Rightarrow> (nat \<times> Patient) option" where
  "find_patient [] pid = None"
| "find_patient (p # ps) pid =
     (if patient_id p = pid then Some (0, p)
      else (case find_patient ps pid of
              None \<Rightarrow> None
            | Some (i, q) \<Rightarrow> Some (Suc i, q)))"

definition get_patient_by_id :: "GameState \<Rightarrow> int \<Rightarrow> (nat \<times> Patient) option" where
  "get_patient_by_id gs pid = find_patient (patients gs) pid"

section \<open>The randomness source\<close>

text \<open>
  The module-level generator \<open>_rng\<close> is threaded through every function that draws
  from it. It is an unbounded sequence of draws and the position of the next one;
  every call of the library (\<open>random\<close>, \<open>choice\<close>, \<open>randint\<close>) consumes one draw.
  The draws are arbitrary reals: \<open>random\<close> hands the draw out as it is, \<open>choice\<close>
  and \<open>randint\<close> scale it to an index and keep the index in range.
\<close>

record Rng =
  draws :: "nat \<Rightarrow> real"
  position :: nat

definition rng_random :: "Rng \<Rightarrow> real \<times> Rng" where
  "rng_random g = (draws g (position g), g\<lparr>position := Suc (position g)\<rparr>)"

definition rng_index :: "real \<Rightarrow> int \<Rightarrow> int" where
  "rng_index u n = max 0 (min (n - 1) \<lfloor>u * of_int n\<rfloor>)"

definition rng_choice :: "Rng \<Rightarrow> int list \<Rightarrow> int \<times> Rng" where
  "rng_choice g xs =
     (xs ! nat (rng_index (draws g (position g)) (int (length xs))),
      g\<lparr>position := Suc (position g)\<rparr>)"

definition rng_randint :: "Rng \<Rightarrow> int \<Rightarrow> int \<Rightarrow> int \<times> Rng" where
  "rng_randint g a b =
     (a + rng_index (draws g (position g)) (b - a + 1),
      g\<lparr>position := Suc (position g)\<rparr>)"

section \<open>Severity and probability model (stochastic_model.py)\<close>

definition patients_per_round :: "DifficultyLevel \<Rightarrow> int \<times> int" where
  "patients_per_round d =
     (if d = BASIC then BASIC_PATIENTS_PER_ROUND else STOCH_PATIENTS_PER_ROUND)"

definition severe_probability :: "DifficultyLevel \<Rightarrow> real" where
  "severe_probability d = (if d = BASIC then BASIC_SEVERE_PROB else STOCH_SEVERE_PROB)"

definition deterioration_probability :: "DifficultyLevel \<Rightarrow> real" where
  "deterioration_probability d =
     (if d = BASIC then BASIC_DETERIORATE_PROB else STOCH_DETERIORATE_PROB)"

definition sample_true_severity :: "real \<Rightarrow> Rng \<Rightarrow> SeverityLevel \<times> Rng" where
  "sample_true_severity severe_prob g =
     (case rng_random g of (x, g1) \<Rightarrow>
        (case rng_random g1 of (y, g2) \<Rightarrow>
           if x < severe_prob then ((if y < 0.6 then SEVERE else CRITICAL), g2)
           else ((if y < 0.5 then MILD else MODERATE), g2)))"

fun severity_to_int :: "SeverityLevel \<Rightarrow> int" where
  "severity_to_int MILD = 0"
| "severity_to_int MODERATE = 1"
| "severity_to_int SEVERE = 2"
| "severity_to_int CRITICAL = 3"

definition int_to_severity :: "int \<Rightarrow> SeverityLevel" where
  "int_to_severity idx0 =
     (let idx = max 0 (min 3 idx0) in
      if idx = 0 then MILD
      else if idx = 1 then MODERATE
      else if idx = 2 then SEVERE
      else CRITICAL)"

definition noisy_visible_severity ::
  "SeverityLevel \<Rightarrow> DifficultyLevel \<Rightarrow> Rng \<Rightarrow> SeverityLevel \<times> Rng" where
  "noisy_visible_severity true_severity d g =
     (let true_idx = severity_to_int true_severity in
      case rng_random g of (r, g1) \<Rightarrow>
        (case (if d = BASIC then
                 (if r < 0.8 then (0, g1) else rng_choice g1 [-1, 1])
               else
                 (if r < 0.6 then (0, g1)
                  else if r < 0.9 then rng_choice g1 [-1, 1]
                  else rng_choice g1 [-2, 2]))
         of (delta, g2) \<Rightarrow>
           (let visible_idx = true_idx + delta in (int_to_severity visible_idx, g2))))"

definition death_probability ::
  "SeverityLevel \<Rightarrow> bool \<Rightarrow> TriageDecision \<Rightarrow> real" where
  "death_probability true_severity treated decision =
     (let base = (case true_severity of
                    MILD \<Rightarrow> 0.01 | MODERATE \<Rightarrow> 0.05 | SEVERE \<Rightarrow> 0.15 | CRITICAL \<Rightarrow> 0.30)
      in
      if treated then
        (if true_severity = SEVERE \<or> true_severity = CRITICAL then base * 0.25
         else base * 0.10)
      else if decision = MONITOR then base * 1.2
      else if decision = DEFER then base * 2.0
      else if decision = TRANSFER then base * 1.5
      else base)"

text \<open>
  \<open>_update_metrics_for_patient_outcome\<close> mutates the hospital of the game state;
  its patient argument is not read.
\<close>

definition update_metrics_for_patient_outcome ::
  "GameState \<Rightarrow> Patient \<Rightarrow> bool \<Rightarrow> TriageDecision \<Rightarrow> GameState" where
  "update_metrics_for_patient_outcome game_state patient died decision =
     (let h = hospital game_state;
          h1 = (if died then
                  h\<lparr>survival_score := survival_score h - 4.0,
                    reputation := reputation h - 2.0,
                    staff_stress := staff_stress h + 3.0\<rparr>
                else
                  h\<lparr>survival_score := survival_score h + 0.5,
                    reputation := reputation h + 0.5\<rparr>);
          h2 = (if decision = TREAT_NOW then
                  h1\<lparr>staff_stress := staff_stress h1 + 1.0,
                     reputation := reputation h1 + 0.5\<rparr>
                else if decision = MONITOR then
                  h1\<lparr>staff_stress := staff_stress h1 + 0.5\<rparr>
                else if decision = DEFER then
                  h1\<lparr>reputation := reputation h1 - 1.0\<rparr>
                else if decision = TRANSFER then
                  (if available_beds h1 \<le> 0 \<or> staff_capacity_this_round h1 \<le> 0 then
                     h1\<lparr>reputation := reputation h1 + 0.5\<rparr>
                   else
                     h1\<lparr>reputation := reputation h1 - 1.0\<rparr>)
                else h1)
      in game_state\<lparr>hospital :=
           h2\<lparr>survival_score := max 0.0 (min 100.0 (survival_score h2)),
              staff_stress := max 0.0 (min 100.0 (staff_stress h2)),
              reputation := max 0.0 (min 100.0 (reputation h2))\<rparr>\<rparr>)"

text \<open>
  \<open>_deteriorate_severity_if_needed\<close> returns whether the severity worsened, the
  patient as mutated, and the generator. Its game state argument is not read and is
  left out.
\<close>

definition deteriorate_severity_if_needed ::
  "Patient \<Rightarrow> real \<Rightarrow> Rng \<Rightarrow> bool \<times> Patient \<times> Rng" where
  "deteriorate_severity_if_needed patient deterioration_prob g =
     (if \<not> is_alive patient \<or> is_treated patient \<or> has_left patient then
        (False, patient, g)
      else
        (case rng_random g of (x, g1) \<Rightarrow>
           if x < deterioration_prob then
             (let current_idx = severity_to_int (severity_hidden_true patient) in
              if current_idx < severity_to_int CRITICAL then
                (let new_idx = current_idx + 1 in
                 (True,
                  patient\<lparr>severity_hidden_true := int_to_severity new_idx\<rparr>, g1))
              else (False, patient, g1))
           else (False, patient, g1)))"

section \<open>Narrative text (stochastic_model.py)\<close>

text \<open>
  Python strings are character lists. \<open>str_int\<close> is the decimal rendering that an
  f-string gives an int.
\<close>

definition digit_char :: "nat \<Rightarrow> char" where
  "digit_char d = ''0123456789'' ! d"

fun str_nat :: "nat \<Rightarrow> string" where
  "str_nat n =
     (if n < 10 then [digit_char n] else str_nat (n div 10) @ [digit_char (n mod 10)])"

declare str_nat.simps [simp del]

definition str_int :: "int \<Rightarrow> string" where
  "str_int i = (if i < 0 then CHR ''-'' # str_nat (nat (- i)) else str_nat (nat i))"

fun describe_severity :: "SeverityLevel \<Rightarrow> string" where
  "describe_severity MILD = ''mild''"
| "describe_severity MODERATE = ''moderate''"
| "describe_severity SEVERE = ''severe''"
| "describe_severity CRITICAL = ''critical''"

fun decision_label :: "TriageDecision \<Rightarrow> string" where
  "decision_label TREAT_NOW = ''treat now''"
| "decision_label MONITOR = ''monitor''"
| "decision_label DEFER = ''defer''"
| "decision_label TRANSFER = ''transfer''"

text \<open>The local \<open>quality\<close> of \<open>_explain_decision_and_outcome\<close>.\<close>

definition quality :: "TriageDecision \<Rightarrow> SeverityLevel \<Rightarrow> string" where
  "quality decision true_severity_at_decision =
     (if decision = TREAT_NOW \<and> true_severity_at_decision \<in> {SEVERE, CRITICAL} then
        ''aligned with the high true risk''
      else if decision = TREAT_NOW \<and> true_severity_at_decision \<in> {MILD, MODERATE} then
        ''conservative, using resources on a lower-risk patient''
      else if decision \<in> {MONITOR, DEFER} \<and> true_severity_at_decision \<in> {SEVERE, CRITICAL} then
        ''risky given the underlying severity''
      else if decision = TRANSFER \<and> true_severity_at_decision \<in> {SEVERE, CRITICAL} then
        ''high-risk, depending on external capacity''
      else ''reasonable for the estimated risk'')"

text \<open>
  The local \<open>explanation\<close> of \<open>_explain_decision_and_outcome\<close>: the text that the
  function appends to the notes of the summary.
\<close>

definition explanation ::
  "Patient \<Rightarrow> SeverityLevel \<Rightarrow> SeverityLevel \<Rightarrow> TriageDecision \<Rightarrow> bool \<Rightarrow> bool \<Rightarrow> string" where
  "explanation patient visible_severity true_severity_at_decision decision
       treated_this_round died =
     (let visible_text = describe_severity visible_severity;
          true_text = describe_severity true_severity_at_decision;
          outcome_text = (if died then ''died this round'' else ''survived this round'');
          uncertainty_part =
            (if visible_severity \<noteq> true_severity_at_decision then
               ''Note: the patient appeared '' @ visible_text @
               '', but was actually '' @ true_text @
               '', illustrating diagnostic uncertainty.''
             else
               ''In this case, the visible severity ('' @ visible_text @
               '') matched the true severity, so uncertainty played a smaller role.'');
          treatment_part =
            (if treated_this_round then ''You allocated scarce beds/staff to this patient.''
             else ''You did not allocate full treatment capacity this round.'')
      in ''Patient '' @ str_int (patient_id patient) @ '': appeared '' @ visible_text @
         '', true severity '' @ true_text @ ''. '' @
         ''You chose to '' @ decision_label decision @ '', which was '' @
         quality decision true_severity_at_decision @ ''. '' @
         ''As a result, the patient '' @ outcome_text @ ''. '' @
         treatment_part @ '' '' @ uncertainty_part)"

definition explain_decision_and_outcome ::
  "RoundSummary \<Rightarrow> Patient \<Rightarrow> SeverityLevel \<Rightarrow> SeverityLevel \<Rightarrow> TriageDecision \<Rightarrow>
   bool \<Rightarrow> bool \<Rightarrow> RoundSummary" where
  "explain_decision_and_outcome summary patient visible_severity true_severity_at_decision
       decision treated_this_round died =
     summary\<lparr>summary_notes := summary_notes summary @
       [explanation patient visible_severity true_severity_at_decision decision
          treated_this_round died]\<rparr>"

section \<open>Environment shocks (stochastic_model.py)\<close>

text \<open>Python's \<open>round\<close> on a float: to the nearest integer, a tie to the even one.\<close>

definition py_round :: "real \<Rightarrow> int" where
  "py_round x =
     (let f = \<lfloor>x\<rfloor>; d = x - of_int f in
      if d < 1 / 2 then f else if 1 / 2 < d then f + 1 else if even f then f else f + 1)"

definition staff_shortage_scenario :: string where
  "staff_shortage_scenario =
     ''Scenario: A respiratory virus has spread among hospital staff. '' @
     ''Several nurses and residents call in sick just before the shift, '' @
     ''forcing you to manage with fewer people on the floor.''"

definition staff_shortage_event :: "int \<Rightarrow> int \<Rightarrow> string" where
  "staff_shortage_event original new_capacity =
     ''Environment event: unexpected staff shortage reduced staff capacity '' @
     ''from '' @ str_int original @ '' to '' @ str_int new_capacity @
     '' this round, making '' @ [CHR 0x27] @ ''Treat now'' @ [CHR 0x27] @ '' '' @
     ''decisions more expensive.''"

definition bed_outage_scenario :: string where
  "bed_outage_scenario =
     ''Scenario: A burst pipe floods one of the surgical wards. '' @
     ''Facilities management has to close several rooms for emergency repairs, '' @
     ''leaving you with fewer usable beds.''"

text \<open>The arrow of the note is U+2192, here as its three bytes in UTF-8.\<close>

definition bed_outage_event :: "int \<Rightarrow> int \<Rightarrow> string" where
  "bed_outage_event original new_beds =
     ''Environment event: a ward outage made some beds unavailable '' @
     ''('' @ str_int original @ '' '' @ [CHR 0xE2, CHR 0x86, CHR 0x92] @ '' '' @
     str_int new_beds @ '' beds) this round, tightening your '' @
     ''capacity for new admissions.''"

definition surge_scenario :: string where
  "surge_scenario =
     ''Scenario: A multi-vehicle highway collision and a local festival outbreak '' @
     ''hit the region at the same time. Incoming patients are more unstable, '' @
     ''and those waiting in the hospital are at higher risk of sudden decline.''"

definition surge_event :: string where
  "surge_event =
     ''Environment event: deterioration risk for untreated patients increased '' @
     ''this round due to the external surge in severe cases.''"

definition routine_scenario :: string where
  "routine_scenario =
     ''Scenario: This round represents a relatively routine shift. '' @
     ''Uncertainty still exists at the patient level, but there are no '' @
     ''major external disruptions to hospital operations.''"

definition stable_scenario :: string where
  "stable_scenario =
     ''Scenario: Community conditions are stable this round. '' @
     ''Your main challenge is triaging with incomplete information '' @
     ''rather than reacting to large external crises.''"

definition add_notes :: "RoundSummary \<Rightarrow> string list \<Rightarrow> RoundSummary" where
  "add_notes summary ns = summary\<lparr>summary_notes := summary_notes summary @ ns\<rparr>"

text \<open>
  \<open>_apply_environment_shocks\<close> returns the game state and the summary as mutated,
  the deterioration probability, and the generator.
\<close>

definition apply_environment_shocks ::
  "GameState \<Rightarrow> RoundSummary \<Rightarrow> real \<Rightarrow> Rng \<Rightarrow> GameState \<times> RoundSummary \<times> real \<times> Rng" where
  "apply_environment_shocks game_state summary base_deterioration_prob g =
     (if difficulty game_state \<noteq> STOCHASTIC then
        (game_state, summary, base_deterioration_prob, g)
      else
        (case rng_random g of (roll, g1) \<Rightarrow>
           (let h = hospital game_state in
            if roll < 0.20 then
              (let original = staff_capacity_this_round h;
                   new_capacity = max 1 (py_round (of_int original * 0.6))
               in (game_state\<lparr>hospital := h\<lparr>staff_capacity_this_round := new_capacity\<rparr>\<rparr>,
                   add_notes summary
                     [staff_shortage_scenario, staff_shortage_event original new_capacity],
                   base_deterioration_prob, g1))
            else if roll < 0.40 then
              (let original = available_beds h in
               if original > 0 then
                 (let reduction = max 1 (original div 2);
                      new_beds = max 0 (original - reduction)
                  in (game_state\<lparr>hospital := h\<lparr>available_beds := new_beds\<rparr>\<rparr>,
                      add_notes summary
                        [bed_outage_scenario, bed_outage_event original new_beds],
                      base_deterioration_prob, g1))
               else (game_state, summary, base_deterioration_prob, g1))
            else if roll < 0.60 then
              (let new_prob = min 0.9 (base_deterioration_prob * 1.7)
               in (game_state, add_notes summary [surge_scenario, surge_event],
                   new_prob, g1))
            else
              (case rng_random g1 of (quiet_roll, g2) \<Rightarrow>
                 if quiet_roll < 0.5 then
                   (game_state, add_notes summary [routine_scenario],
                    base_deterioration_prob, g2)
                 else
                   (game_state, add_notes summary [stable_scenario],
                    base_deterioration_prob, g2)))))"

section \<open>Round resolution engine (stochastic_model.py)\<close>

text \<open>
  The loop of \<open>generate_new_patients_for_round\<close>, by the number of patients still
  to create; \<open>new_patients\<close> is the batch so far.
\<close>

fun generate_loop ::
  "nat \<Rightarrow> DifficultyLevel \<Rightarrow> real \<Rightarrow> GameState \<Rightarrow> Patient list \<Rightarrow> Rng \<Rightarrow>
   GameState \<times> Patient list \<times> Rng" where
  "generate_loop 0 d severe_prob game_state new_patients g = (game_state, new_patients, g)"
| "generate_loop (Suc n) d severe_prob game_state new_patients g =
     (case sample_true_severity severe_prob g of (true_severity, g1) \<Rightarrow>
        (case noisy_visible_severity true_severity d g1 of (visible_severity, g2) \<Rightarrow>
           (let pid = next_patient_id game_state;
                p = new_Patient pid (''Patient '' @ str_int pid) visible_severity
                      true_severity (current_round game_state);
                gs1 = game_state\<lparr>next_patient_id := pid + 1,
                        patients := patients game_state @ [p]\<rparr>
            in generate_loop n d severe_prob gs1 (new_patients @ [p]) g2)))"

definition generate_new_patients_for_round ::
  "GameState \<Rightarrow> Rng \<Rightarrow> GameState \<times> Patient list \<times> Rng" where
  "generate_new_patients_for_round game_state g =
     (let d = difficulty game_state;
          severe_prob = severe_probability d
      in case patients_per_round d of (min_p, max_p) \<Rightarrow>
           (case rng_randint g min_p max_p of (num_new, g1) \<Rightarrow>
              generate_loop (nat num_new) d severe_prob game_state [] g1))"

text \<open>
  The state of \<open>apply_player_decisions\<close> while it runs: the game state, the summary
  under construction and the generator.
\<close>

type_synonym engine_state = "GameState \<times> RoundSummary \<times> Rng"

definition put_patient :: "GameState \<Rightarrow> nat \<Rightarrow> Patient \<Rightarrow> GameState" where
  "put_patient gs i p = gs\<lparr>patients := (patients gs)[i := p]\<rparr>"

definition coercion_note :: "Patient \<Rightarrow> string" where
  "coercion_note patient =
     ''Patient '' @ str_int (patient_id patient) @ '': you attempted to treat, '' @
     ''but there were no beds or staff left, so the decision '' @
     ''effectively became '' @ [CHR 0x27] @ ''defer'' @ [CHR 0x27] @ ''.''"

definition deterioration_note :: "Patient \<Rightarrow> string" where
  "deterioration_note patient =
     ''Patient '' @ str_int (patient_id patient) @ '': condition deteriorated due to the '' @
     ''stochastic environment (random health changes over time). '' @
     ''This models how patients can worsen even without a new decision.''"

text \<open>
  The shared outcome step of the decision loop (treat, monitor, defer): the patient
  stands at position \<open>i\<close> of the roster.
\<close>

definition resolve_outcome ::
  "nat \<Rightarrow> int \<Rightarrow> Patient \<Rightarrow> SeverityLevel \<Rightarrow> SeverityLevel \<Rightarrow> TriageDecision \<Rightarrow> bool \<Rightarrow>
   engine_state \<Rightarrow> engine_state" where
  "resolve_outcome i pid patient visible_at_decision true_severity_at_decision decision
       treated_this_round st =
     (case st of (game_state, summary, g) \<Rightarrow>
        (let death_prob =
               death_probability (severity_hidden_true patient) treated_this_round decision
         in case rng_random g of (x, g1) \<Rightarrow>
              (let died = x < death_prob;
                   patient1 = (if died then patient\<lparr>is_alive := False\<rparr> else patient);
                   summary1 = (if died then
                                 summary\<lparr>patients_died := patients_died summary @ [pid]\<rparr>
                               else summary);
                   gs1 = update_metrics_for_patient_outcome
                           (put_patient game_state i patient1) patient1 died decision;
                   summary2 = explain_decision_and_outcome summary1 patient1
                                visible_at_decision true_severity_at_decision decision
                                treated_this_round died
               in (gs1, summary2, g1))))"

text \<open>The transfer branch of the decision loop, which ends with \<open>continue\<close>.\<close>

definition resolve_transfer ::
  "nat \<Rightarrow> int \<Rightarrow> Patient \<Rightarrow> SeverityLevel \<Rightarrow> SeverityLevel \<Rightarrow> TriageDecision \<Rightarrow>
   engine_state \<Rightarrow> engine_state" where
  "resolve_transfer i pid patient visible_at_decision true_severity_at_decision decision st =
     (case st of (game_state, summary, g) \<Rightarrow>
        (let patient1 = patient\<lparr>has_left := True\<rparr>;
             death_prob = death_probability (severity_hidden_true patient1) False decision
         in case rng_random g of (x, g1) \<Rightarrow>
              (let died = x < death_prob;
                   patient2 = patient1\<lparr>is_alive := \<not> died\<rparr>;
                   summary1 = (if died then
                                 summary\<lparr>patients_died := patients_died summary @ [pid]\<rparr>
                               else summary);
                   gs1 = update_metrics_for_patient_outcome
                           (put_patient game_state i patient2) patient2 died decision;
                   summary2 = explain_decision_and_outcome summary1 patient2
                                visible_at_decision true_severity_at_decision decision
                                False died
               in (gs1, summary2, g1))))"

text \<open>One turn of the loop over \<open>decisions.items()\<close>.\<close>

definition apply_decision :: "int \<times> TriageDecision \<Rightarrow> engine_state \<Rightarrow> engine_state" where
  "apply_decision pd st =
     (case pd of (pid, decision) \<Rightarrow>
      case st of (game_state, summary, g) \<Rightarrow>
        (case get_patient_by_id game_state pid of
           None \<Rightarrow> st
         | Some (i, patient) \<Rightarrow>
             if \<not> is_alive patient \<or> has_left patient then st
             else
               (let hosp = hospital game_state;
                    true_severity_at_decision = severity_hidden_true patient;
                    visible_at_decision = severity_visible patient
                in
                if decision = TREAT_NOW then
                  (if staff_capacity_this_round hosp > 0 \<and> available_beds hosp > 0 then
                     (let patient1 = patient\<lparr>is_treated := True\<rparr>;
                          gs1 = (put_patient game_state i patient1)
                                  \<lparr>hospital := hosp
                                     \<lparr>staff_capacity_this_round :=
                                        staff_capacity_this_round hosp - 1,
                                      available_beds := available_beds hosp - 1\<rparr>\<rparr>;
                          summary1 = summary\<lparr>patients_treated :=
                                       patients_treated summary @ [pid]\<rparr>
                      in resolve_outcome i pid patient1 visible_at_decision
                           true_severity_at_decision TREAT_NOW True (gs1, summary1, g))
                   else
                     resolve_outcome i pid patient visible_at_decision
                       true_severity_at_decision DEFER False
                       (game_state, add_notes summary [coercion_note patient], g))
                else if decision = TRANSFER then
                  resolve_transfer i pid patient visible_at_decision
                    true_severity_at_decision decision st
                else
                  resolve_outcome i pid patient visible_at_decision
                    true_severity_at_decision decision False st)))"

fun apply_decisions :: "(int \<times> TriageDecision) list \<Rightarrow> engine_state \<Rightarrow> engine_state" where
  "apply_decisions [] st = st"
| "apply_decisions (pd # rest) st = apply_decisions rest (apply_decision pd st)"

text \<open>
  The deterioration loop walks the roster and mutates the patient it stands on; it
  returns the roster as mutated.
\<close>

fun deterioration_pass ::
  "Patient list \<Rightarrow> real \<Rightarrow> RoundSummary \<Rightarrow> Rng \<Rightarrow> Patient list \<times> RoundSummary \<times> Rng" where
  "deterioration_pass [] deterioration_prob summary g = ([], summary, g)"
| "deterioration_pass (patient # rest) deterioration_prob summary g =
     (if \<not> is_alive patient \<or> has_left patient then
        (case deterioration_pass rest deterioration_prob summary g of
           (rest1, summary1, g1) \<Rightarrow> (patient # rest1, summary1, g1))
      else if is_treated patient then
        (case deterioration_pass rest deterioration_prob summary g of
           (rest1, summary1, g1) \<Rightarrow> (patient # rest1, summary1, g1))
      else
        (case deteriorate_severity_if_needed patient deterioration_prob g of
           (worsened, patient1, g1) \<Rightarrow>
             (let summary1 =
                    (if worsened then
                       summary\<lparr>patients_deteriorated :=
                                 patients_deteriorated summary @ [patient_id patient1],
                               summary_notes :=
                                 summary_notes summary @ [deterioration_note patient1]\<rparr>
                     else summary)
              in case deterioration_pass rest deterioration_prob summary1 g1 of
                   (rest2, summary2, g2) \<Rightarrow> (patient1 # rest2, summary2, g2))))"

definition occupies_bed :: "Patient \<Rightarrow> bool" where
  "occupies_bed p = (is_alive p \<and> is_treated p \<and> \<not> has_left p)"

definition count_occupied_beds :: "Patient list \<Rightarrow> int" where
  "count_occupied_beds ps = int (length (filter occupies_bed ps))"

definition apply_player_decisions ::
  "GameState \<Rightarrow> (int \<times> TriageDecision) list \<Rightarrow> Rng \<Rightarrow> engine_state" where
  "apply_player_decisions game_state ds g =
     (let summary = (new_RoundSummary (current_round game_state))\<lparr>decisions := ds\<rparr>;
          deterioration_prob = deterioration_probability (difficulty game_state)
      in case apply_environment_shocks game_state summary deterioration_prob g of
           (gs1, summary1, deterioration_prob1, g1) \<Rightarrow>
      (case apply_decisions ds (gs1, summary1, g1) of
           (gs2, summary2, g2) \<Rightarrow>
      (case deterioration_pass (patients gs2) deterioration_prob1 summary2 g2 of
           (patients3, summary3, g3) \<Rightarrow>
         (let occupied_beds = count_occupied_beds patients3;
              h = hospital gs2;
              h1 = h\<lparr>available_beds := max 0 (MAX_BEDS - occupied_beds)\<rparr>;
              h2 = h1\<lparr>survival_score := max 0.0 (min 100.0 (survival_score h1)),
                      staff_stress := max 0.0 (min 100.0 (staff_stress h1)),
                      reputation := max 0.0 (min 100.0 (reputation h1))\<rparr>
          in (gs2\<lparr>patients := patients3, hospital := h2\<rparr>, summary3, g3)))))"

text \<open>
  The game states the program can reach: a new game, then any sequence of the two
  engine operations and of the two operations of the state model that the caller
  runs around them.
\<close>

inductive reachable :: "GameState \<Rightarrow> bool" where
  reachable_new: "reachable (new_GameState d)"
| reachable_generate:
    "reachable gs \<Longrightarrow> generate_new_patients_for_round gs g = (gs1, new_patients, g1) \<Longrightarrow>
     reachable gs1"
| reachable_apply:
    "reachable gs \<Longrightarrow> apply_player_decisions gs ds g = (gs1, summary, g1) \<Longrightarrow>
     reachable gs1"
| reachable_add_summary: "reachable gs \<Longrightarrow> reachable (add_round_summary gs summary)"
| reachable_increment: "reachable gs \<Longrightarrow> reachable (increment_round gs)"

section \<open>Concrete inputs\<close>

text \<open>A generator that replays a fixed list of draws, and 0 after its end.\<close>

definition fixed_rng :: "real list \<Rightarrow> Rng" where
  "fixed_rng xs = \<lparr>draws = (\<lambda>n. if n < length xs then xs ! n else 0), position = 0\<rparr>"

definition example_patient :: "int \<Rightarrow> SeverityLevel \<Rightarrow> Patient" where
  "example_patient i sev = new_Patient i (''Patient '' @ str_int i) sev sev 1"

text \<open>
  A Basic game with one waiting Severe patient and no bed left.
\<close>

definition scarce_state :: GameState where
  "scarce_state =
     (new_GameState BASIC)
       \<lparr>patients := [example_patient 1 SEVERE],
        hospital := new_HospitalState\<lparr>available_beds := 0\<rparr>\<rparr>"

section \<open>Frame and invariant\<close>

text \<open>What identifies a patient, which no engine operation changes.\<close>

definition identity_of :: "Patient \<Rightarrow> int \<times> string \<times> SeverityLevel \<times> int" where
  "identity_of p = (patient_id p, name p, severity_visible p, arrival_round p)"

text \<open>The part of a game state that \<open>apply_player_decisions\<close> leaves alone.\<close>

definition frame_of ::
  "GameState \<Rightarrow>
   DifficultyLevel \<times> int \<times> int \<times> RoundSummary list \<times> (int \<times> string \<times> SeverityLevel \<times> int) list"
  where
  "frame_of gs =
     (difficulty gs, current_round gs, next_patient_id gs, history gs,
      map identity_of (patients gs))"

text \<open>Beds are never negative, and occupied and available beds fit in the ward.\<close>

definition bed_invariant :: "GameState \<Rightarrow> bool" where
  "bed_invariant gs =
     (0 \<le> available_beds (hospital gs) \<and>
      count_occupied_beds (patients gs) + available_beds (hospital gs) \<le> MAX_BEDS)"

text \<open>
  A first round on the Basic tier: three Severe patients arrive (every draw of the
  generation is 0), and the player treats patient 1 and transfers patient 2.
\<close>

definition first_round_state :: GameState where
  "first_round_state = fst (generate_new_patients_for_round (new_GameState BASIC) (fixed_rng []))"

definition first_round_decisions :: "(int \<times> TriageDecision) list" where
  "first_round_decisions = [(1, TREAT_NOW), (2, TRANSFER)]"

section \<open>The stages of a round\<close>

text \<open>
  \<open>apply_player_decisions\<close> in three stages: what it does before the decision
  loop (the summary with the submitted map, the environment shock), the loop
  itself (\<open>apply_decisions\<close>), and what it does after the loop (deterioration,
  recount of the beds, final clamp). The lemma \<open>apply_player_decisions_stages\<close>
  shows that the function is the three stages in a row.
\<close>

definition start_round ::
  "GameState \<Rightarrow> (int \<times> TriageDecision) list \<Rightarrow> Rng \<Rightarrow>
   GameState \<times> RoundSummary \<times> real \<times> Rng" where
  "start_round game_state ds g =
     apply_environment_shocks game_state
       ((new_RoundSummary (current_round game_state))\<lparr>decisions := ds\<rparr>)
       (deterioration_probability (difficulty game_state)) g"

definition finish_round :: "real \<Rightarrow> engine_state \<Rightarrow> engine_state" where
  "finish_round deterioration_prob st =
     (case st of (gs2, summary2, g2) \<Rightarrow>
      (case deterioration_pass (patients gs2) deterioration_prob summary2 g2 of
           (patients3, summary3, g3) \<Rightarrow>
         (let occupied_beds = count_occupied_beds patients3;
              h = hospital gs2;
              h1 = h\<lparr>available_beds := max 0 (MAX_BEDS - occupied_beds)\<rparr>;
              h2 = h1\<lparr>survival_score := max 0.0 (min 100.0 (survival_score h1)),
                      staff_stress := max 0.0 (min 100.0 (staff_stress h1)),
                      reputation := max 0.0 (min 100.0 (reputation h1))\<rparr>
          in (gs2\<lparr>patients := patients3, hospital := h2\<rparr>, summary3, g3))))"


section \<open>Theorems\<close>

subsection \<open>Severity ranks\<close>

lemma severity_to_int_range: "0 \<le> severity_to_int s \<and> severity_to_int s \<le> 3"
  by (cases s) simp_all

lemma severity_to_int_int_to_severity:
  "severity_to_int (int_to_severity i) = max 0 (min 3 i)"
  by (simp add: int_to_severity_def Let_def max_def min_def)

lemma int_to_severity_to_int: "int_to_severity (severity_to_int s) = s"
  by (cases s) (simp_all add: int_to_severity_def)

subsection \<open>Death probability\<close>

text \<open>
  C3. For every true severity and decision, \<open>_death_probability\<close> is the base rate
  of the severity (Mild 0.01, Moderate 0.05, Severe 0.15, Critical 0.30) times one
  factor: for a treated patient 0.25 when the severity is Severe or Critical and
  0.10 otherwise; for an untreated patient 1.2 for Monitor, 2.0 for Defer, 1.5 for
  Transfer and 1.0 for any other decision. A treated Critical patient has death
  probability 0.075.
\<close>

theorem death_probability_table:
  "death_probability sev treated decision =
     (case sev of MILD \<Rightarrow> 0.01 | MODERATE \<Rightarrow> 0.05 | SEVERE \<Rightarrow> 0.15 | CRITICAL \<Rightarrow> 0.30) *
     (if treated then (if sev = SEVERE \<or> sev = CRITICAL then 0.25 else 0.10)
      else (case decision of
              TREAT_NOW \<Rightarrow> 1.0 | MONITOR \<Rightarrow> 1.2 | DEFER \<Rightarrow> 2.0 | TRANSFER \<Rightarrow> 1.5))
   \<and> death_probability CRITICAL True decision = 0.075"
  by (cases sev; cases decision; simp add: death_probability_def)

subsection \<open>Deterioration\<close>

text \<open>
  C6. For every patient and every deterioration draw,
  \<open>_deteriorate_severity_if_needed\<close> never decreases the rank of the true severity
  and never raises it above 3 (Critical). Unless the patient is alive, not treated
  and has not left, it returns false, changes nothing and draws nothing. When it
  returns true the rank has gone up by exactly one and nothing else of the patient
  has changed; when it returns false the patient is unchanged.
\<close>

theorem deteriorate_severity_bounds:
  "case deteriorate_severity_if_needed p prob g of (worsened, p1, g1) \<Rightarrow>
     severity_to_int (severity_hidden_true p) \<le> severity_to_int (severity_hidden_true p1) \<and>
     severity_to_int (severity_hidden_true p1) \<le> 3 \<and>
     (\<not> (is_alive p \<and> \<not> is_treated p \<and> \<not> has_left p) \<longrightarrow>
        \<not> worsened \<and> p1 = p \<and> g1 = g) \<and>
     (worsened \<longrightarrow>
        severity_to_int (severity_hidden_true p1) =
          severity_to_int (severity_hidden_true p) + 1 \<and>
        p1 = p\<lparr>severity_hidden_true := severity_hidden_true p1\<rparr>) \<and>
     (\<not> worsened \<longrightarrow> p1 = p)"
  by (cases "severity_hidden_true p")
     (auto simp add: deteriorate_severity_if_needed_def rng_random_def Let_def
        int_to_severity_def)

text \<open>
  A patient who has died is left alone and no draw is consumed; a waiting Moderate
  patient whose draw 0.1 is below the probability 0.35 becomes Severe; the same
  patient with the draw 0.9 stays as before.
\<close>

theorem deteriorate_severity_bounds_witness:
  "deteriorate_severity_if_needed ((example_patient 1 MODERATE)\<lparr>is_alive := False\<rparr>) 0.35
       (fixed_rng [0.1]) =
     (False, (example_patient 1 MODERATE)\<lparr>is_alive := False\<rparr>, fixed_rng [0.1]) \<and>
   fst (deteriorate_severity_if_needed (example_patient 1 MODERATE) 0.35 (fixed_rng [0.1])) \<and>
   severity_hidden_true
     (fst (snd (deteriorate_severity_if_needed (example_patient 1 MODERATE) 0.35
                  (fixed_rng [0.1])))) = SEVERE \<and>
   fst (snd (deteriorate_severity_if_needed (example_patient 1 MODERATE) 0.35
               (fixed_rng [0.9]))) = example_patient 1 MODERATE"
  using
    deteriorate_severity_bounds
      [where p = "(example_patient 1 MODERATE)\<lparr>is_alive := False\<rparr>"
         and prob = "0.35" and g = "fixed_rng [0.1]"]
    deteriorate_severity_bounds
      [where p = "example_patient 1 MODERATE" and prob = "0.35" and g = "fixed_rng [0.1]"]
    deteriorate_severity_bounds
      [where p = "example_patient 1 MODERATE" and prob = "0.35" and g = "fixed_rng [0.9]"]
  by (simp add: deteriorate_severity_if_needed_def rng_random_def fixed_rng_def
        example_patient_def new_Patient_def int_to_severity_def)

subsection \<open>Visible severity\<close>

lemma clamp_01: "max 0 (min (1::int) k) = 0 \<or> max 0 (min 1 k) = 1"
  by (auto simp add: max_def min_def)

lemma rng_index_2: "rng_index u 2 = 0 \<or> rng_index u 2 = 1"
  unfolding rng_index_def using clamp_01 [of "\<lfloor>u * of_int 2\<rfloor>"] by simp

lemma rng_choice_pair:
  "rng_choice g [a, b] = (a, g\<lparr>position := Suc (position g)\<rparr>) \<or>
   rng_choice g [a, b] = (b, g\<lparr>position := Suc (position g)\<rparr>)"
  using rng_index_2 [of "draws g (position g)"]
  by (auto simp add: rng_choice_def)

text \<open>
  C7. \<open>_noisy_visible_severity\<close> adds an integer offset to the rank of the true
  severity and clamps the sum to the ranks 0 to 3. With \<open>r\<close> the first draw: on
  Basic the offset is 0 when \<open>r < 0.8\<close> and -1 or 1 otherwise; on Stochastic it is
  0 when \<open>r < 0.6\<close>, -1 or 1 when \<open>0.6 \<le> r < 0.9\<close>, and -2 or 2 otherwise. The
  generator moves on by one draw when the offset is 0 and by two (the sign draw)
  when it is not.
\<close>

theorem noisy_visible_severity_offset:
  "\<exists>delta.
     noisy_visible_severity true_severity d g =
       (int_to_severity (severity_to_int true_severity + delta),
        g\<lparr>position := position g + (if delta = 0 then 1 else 2)\<rparr>) \<and>
     severity_to_int (int_to_severity (severity_to_int true_severity + delta)) =
       max 0 (min 3 (severity_to_int true_severity + delta)) \<and>
     (let r = draws g (position g) in
      if d = BASIC then
        (if r < 0.8 then delta = 0 else delta = -1 \<or> delta = 1)
      else
        (if r < 0.6 then delta = 0
         else if r < 0.9 then delta = -1 \<or> delta = 1
         else delta = -2 \<or> delta = 2))"
proof -
  let ?g1 = "g\<lparr>position := Suc (position g)\<rparr>"
  let ?r = "draws g (position g)"
  obtain d1 where d1: "rng_choice ?g1 [-1, 1] = (d1, g\<lparr>position := position g + 2\<rparr>)"
      "d1 = -1 \<or> d1 = 1"
    using rng_choice_pair [of ?g1 "-1" 1] by auto
  obtain d2 where d2: "rng_choice ?g1 [-2, 2] = (d2, g\<lparr>position := position g + 2\<rparr>)"
      "d2 = -2 \<or> d2 = 2"
    using rng_choice_pair [of ?g1 "-2" 2] by auto
  consider (zero) "d = BASIC \<and> ?r < 0.8 \<or> d \<noteq> BASIC \<and> ?r < 0.6"
    | (one) "d = BASIC \<and> \<not> ?r < 0.8 \<or> d \<noteq> BASIC \<and> \<not> ?r < 0.6 \<and> ?r < 0.9"
    | (two) "d \<noteq> BASIC \<and> \<not> ?r < 0.6 \<and> \<not> ?r < 0.9"
    by fastforce
  then show ?thesis
  proof cases
    case zero
    then show ?thesis
      by (intro exI [of _ 0])
         (auto simp add: noisy_visible_severity_def rng_random_def Let_def
            severity_to_int_int_to_severity)
  next
    case one
    with d1 show ?thesis
      by (intro exI [of _ d1])
         (auto simp add: noisy_visible_severity_def rng_random_def Let_def
            severity_to_int_int_to_severity)
  next
    case two
    with d2 show ?thesis
      by (intro exI [of _ d2])
         (auto simp add: noisy_visible_severity_def rng_random_def Let_def
            severity_to_int_int_to_severity)
  qed
qed

text \<open>
  On Basic, the draws 0.9 and 0.7 give the offset +1, and Critical stays Critical by
  the clamp, after two draws. On Stochastic, the draws 0.95 and 0.2 give the offset
  -2, and Moderate becomes Mild by the clamp, after two draws; the draw 0.3 gives
  the offset 0 after one draw.
\<close>

theorem noisy_visible_severity_offset_witness:
  "noisy_visible_severity CRITICAL BASIC (fixed_rng [0.9, 0.7]) =
     (CRITICAL, (fixed_rng [0.9, 0.7])\<lparr>position := 2\<rparr>) \<and>
   noisy_visible_severity MODERATE STOCHASTIC (fixed_rng [0.95, 0.2]) =
     (MILD, (fixed_rng [0.95, 0.2])\<lparr>position := 2\<rparr>) \<and>
   noisy_visible_severity SEVERE STOCHASTIC (fixed_rng [0.3]) =
     (SEVERE, (fixed_rng [0.3])\<lparr>position := 1\<rparr>)"
  using
    noisy_visible_severity_offset
      [where true_severity = CRITICAL and d = BASIC and g = "fixed_rng [0.9, 0.7]"]
    noisy_visible_severity_offset
      [where true_severity = MODERATE and d = STOCHASTIC and g = "fixed_rng [0.95, 0.2]"]
    noisy_visible_severity_offset
      [where true_severity = SEVERE and d = STOCHASTIC and g = "fixed_rng [0.3]"]
  by (simp add: noisy_visible_severity_def rng_random_def rng_choice_def rng_index_def
        fixed_rng_def int_to_severity_def Let_def)

subsection \<open>Metric bounds\<close>

text \<open>
  C1. For every game state, every decision map and every sequence of draws, after
  \<open>apply_player_decisions\<close> each of \<open>survival_score\<close>, \<open>staff_stress\<close> and
  \<open>reputation\<close> lies between 0 and 100.
\<close>

theorem metrics_within_bounds:
  "case apply_player_decisions gs ds g of (gs1, summary, g1) \<Rightarrow>
     0 \<le> survival_score (hospital gs1) \<and> survival_score (hospital gs1) \<le> 100 \<and>
     0 \<le> staff_stress (hospital gs1) \<and> staff_stress (hospital gs1) \<le> 100 \<and>
     0 \<le> reputation (hospital gs1) \<and> reputation (hospital gs1) \<le> 100"
  by (simp add: apply_player_decisions_def Let_def split: prod.splits)

subsection \<open>Environment shocks\<close>

text \<open>
  C8, as amended. On the Stochastic tier, when the shock roll lies in [0.20, 0.40):
  with at least one bed available, \<open>available_beds\<close> goes down by
  \<open>max 1 (beds div 2)\<close>, not below 0, and two notes are appended, the scenario
  and the event naming the old and the new number of beds; with no bed available
  the game state and the notes are left as they are. The roll is the only draw.
\<close>

theorem bed_outage_shock:
  assumes "difficulty gs = STOCHASTIC"
    and "0.20 \<le> draws g (position g)" and "draws g (position g) < 0.40"
  shows "apply_environment_shocks gs summary prob g =
     (let original = available_beds (hospital gs);
          new_beds = max 0 (original - max 1 (original div 2))
      in if original > 0 then
           (gs\<lparr>hospital := (hospital gs)\<lparr>available_beds := new_beds\<rparr>\<rparr>,
            summary\<lparr>summary_notes := summary_notes summary @
              [bed_outage_scenario, bed_outage_event original new_beds]\<rparr>,
            prob, g\<lparr>position := Suc (position g)\<rparr>)
         else (gs, summary, prob, g\<lparr>position := Suc (position g)\<rparr>))"
  using assms
  by (simp add: apply_environment_shocks_def rng_random_def Let_def add_notes_def)

text \<open>With the roll 0.3 and 5 beds, 3 beds remain and the two notes are there.\<close>

theorem bed_outage_shock_witness:
  "apply_environment_shocks (new_GameState STOCHASTIC) (new_RoundSummary 1) 0.35
       (fixed_rng [0.3]) =
     ((new_GameState STOCHASTIC)
        \<lparr>hospital := (hospital (new_GameState STOCHASTIC))\<lparr>available_beds := 3\<rparr>\<rparr>,
      (new_RoundSummary 1)\<lparr>summary_notes := [bed_outage_scenario, bed_outage_event 5 3]\<rparr>,
      0.35, (fixed_rng [0.3])\<lparr>position := 1\<rparr>)"
  using bed_outage_shock [where gs = "new_GameState STOCHASTIC" and g = "fixed_rng [0.3]"
      and summary = "new_RoundSummary 1" and prob = "0.35"]
  by (simp add: new_GameState_def new_HospitalState_def MAX_BEDS_def fixed_rng_def
        new_RoundSummary_def Let_def)

text \<open>
  C8 as stated fails where no bed is available: with the roll 0.3 and 0 beds the
  branch appends no note at all.
\<close>

theorem bed_outage_notes_counterexample:
  "apply_environment_shocks
       ((new_GameState STOCHASTIC)
          \<lparr>hospital := (hospital (new_GameState STOCHASTIC))\<lparr>available_beds := 0\<rparr>\<rparr>)
       (new_RoundSummary 1) 0.35 (fixed_rng [0.3]) =
     ((new_GameState STOCHASTIC)
        \<lparr>hospital := (hospital (new_GameState STOCHASTIC))\<lparr>available_beds := 0\<rparr>\<rparr>,
      (new_RoundSummary 1)\<lparr>summary_notes := []\<rparr>,
      0.35, (fixed_rng [0.3])\<lparr>position := 1\<rparr>)"
  by (simp add: apply_environment_shocks_def rng_random_def Let_def new_GameState_def
        new_HospitalState_def fixed_rng_def new_RoundSummary_def)

subsection \<open>The steps of the decision loop\<close>

lemma find_patient_Some:
  "find_patient ps pid = Some (i, p) \<Longrightarrow> i < length ps \<and> ps ! i = p \<and> patient_id p = pid"
proof (induction ps arbitrary: i)
  case Nil
  then show ?case by simp
next
  case (Cons q qs)
  then show ?case
    by (auto split: if_splits option.splits)
qed

text \<open>What \<open>_update_metrics_for_patient_outcome\<close> does to the hospital, in one update.\<close>

lemma update_metrics_hospital:
  "update_metrics_for_patient_outcome gs p died decision =
     gs\<lparr>hospital := (hospital gs)
       \<lparr>survival_score :=
          max 0 (min 100 (survival_score (hospital gs) + (if died then - 4.0 else 0.5))),
        staff_stress :=
          max 0 (min 100 (staff_stress (hospital gs) + (if died then 3.0 else 0)
            + (case decision of TREAT_NOW \<Rightarrow> 1.0 | MONITOR \<Rightarrow> 0.5 | _ \<Rightarrow> 0))),
        reputation :=
          max 0 (min 100 (reputation (hospital gs) + (if died then - 2.0 else 0.5)
            + (case decision of
                 TREAT_NOW \<Rightarrow> 0.5
               | MONITOR \<Rightarrow> 0
               | DEFER \<Rightarrow> - 1.0
               | TRANSFER \<Rightarrow>
                   (if available_beds (hospital gs) \<le> 0 \<or>
                       staff_capacity_this_round (hospital gs) \<le> 0
                    then 0.5 else - 1.0))))\<rparr>\<rparr>"
  by (cases decision; cases died)
     (simp_all add: update_metrics_for_patient_outcome_def Let_def)

lemma death_probability_untreated:
  "death_probability sev False decision =
     (case sev of MILD \<Rightarrow> 0.01 | MODERATE \<Rightarrow> 0.05 | SEVERE \<Rightarrow> 0.15 | CRITICAL \<Rightarrow> 0.30) *
     (case decision of TREAT_NOW \<Rightarrow> 1.0 | MONITOR \<Rightarrow> 1.2 | DEFER \<Rightarrow> 2.0 | TRANSFER \<Rightarrow> 1.5)"
  by (cases sev; cases decision; simp add: death_probability_def)

lemma apply_decision_transfer:
  assumes "get_patient_by_id gs pid = Some (i, p)" and "is_alive p" and "\<not> has_left p"
  shows "apply_decision (pid, TRANSFER) (gs, summary, g) =
     resolve_transfer i pid p (severity_visible p) (severity_hidden_true p) TRANSFER
       (gs, summary, g)"
  using assms by (simp add: apply_decision_def Let_def)



lemma resolve_transfer_unfold:
  "resolve_transfer i pid p v t d (gs, summary, g) =
     (let died = draws g (position g) < death_probability (severity_hidden_true p) False d;
          p2 = p\<lparr>has_left := True, is_alive := \<not> died\<rparr>
      in (update_metrics_for_patient_outcome (put_patient gs i p2) p2 died d,
          explain_decision_and_outcome
            (if died then summary\<lparr>patients_died := patients_died summary @ [pid]\<rparr>
             else summary) p2 v t d False died,
          g\<lparr>position := Suc (position g)\<rparr>))"
  by (simp add: resolve_transfer_def rng_random_def Let_def)

lemma resolve_outcome_unfold:
  "resolve_outcome i pid p v t d tr (gs, summary, g) =
     (let died = draws g (position g) < death_probability (severity_hidden_true p) tr d;
          p1 = (if died then p\<lparr>is_alive := False\<rparr> else p)
      in (update_metrics_for_patient_outcome (put_patient gs i p1) p1 died d,
          explain_decision_and_outcome
            (if died then summary\<lparr>patients_died := patients_died summary @ [pid]\<rparr>
             else summary) p1 v t d tr died,
          g\<lparr>position := Suc (position g)\<rparr>))"
  by (simp add: resolve_outcome_def rng_random_def Let_def)

text \<open>The turn of a Transfer decision for a patient that the loop processes.\<close>

lemma transfer_turn:
  assumes "get_patient_by_id gs pid = Some (i, p)" and "is_alive p" and "\<not> has_left p"
  shows
    "(let h = hospital gs;
          death_prob = (case severity_hidden_true p of
                          MILD \<Rightarrow> 0.01 | MODERATE \<Rightarrow> 0.05 | SEVERE \<Rightarrow> 0.15
                        | CRITICAL \<Rightarrow> 0.30) * 1.5;
          died = draws g (position g) < death_prob;
          scarce = (available_beds h \<le> 0 \<or> staff_capacity_this_round h \<le> 0);
          p1 = p\<lparr>has_left := True, is_alive := \<not> died\<rparr>;
          summary1 = (if died then summary\<lparr>patients_died := patients_died summary @ [pid]\<rparr>
                      else summary)
      in apply_decision (pid, TRANSFER) (gs, summary, g) =
           (gs\<lparr>patients := (patients gs)[i := p1],
               hospital := h
                 \<lparr>survival_score :=
                    max 0 (min 100 (survival_score h + (if died then - 4.0 else 0.5))),
                  staff_stress :=
                    max 0 (min 100 (staff_stress h + (if died then 3.0 else 0))),
                  reputation :=
                    max 0 (min 100 (reputation h + (if died then - 2.0 else 0.5)
                                      + (if scarce then 0.5 else - 1.0)))\<rparr>\<rparr>,
            summary1\<lparr>summary_notes := summary_notes summary @
              [explanation p1 (severity_visible p) (severity_hidden_true p) TRANSFER
                 False died]\<rparr>,
            g\<lparr>position := Suc (position g)\<rparr>)
         \<and> death_prob = death_probability (severity_hidden_true p) False TRANSFER)"
proof -
  have dp: "death_probability (severity_hidden_true p) False TRANSFER =
      (case severity_hidden_true p of
         MILD \<Rightarrow> 0.01 | MODERATE \<Rightarrow> 0.05 | SEVERE \<Rightarrow> 0.15 | CRITICAL \<Rightarrow> 0.30) * 1.5"
    by (simp add: death_probability_untreated)
  show ?thesis
    unfolding apply_decision_transfer [OF assms] resolve_transfer_unfold
      update_metrics_hospital dp Let_def
    by (simp add: put_patient_def explain_decision_and_outcome_def)
qed

subsection \<open>The decision map of the summary\<close>






subsection \<open>The deterioration loop\<close>

lemma deteriorate_keeps:
  "deteriorate_severity_if_needed p prob g = (w, q, g1) \<Longrightarrow>
   identity_of q = identity_of p \<and> is_alive q = is_alive p \<and>
   is_treated q = is_treated p \<and> has_left q = has_left p"
  by (auto simp add: deteriorate_severity_if_needed_def rng_random_def Let_def identity_of_def
        split: if_splits)

text \<open>One turn of the deterioration loop, as the later proofs need it.\<close>

lemma deterioration_pass_Cons:
  assumes "deterioration_pass (p # ps) prob s g = (qs, s1, g1)"
  shows "\<exists>q r s' g'. qs = q # r \<and> deterioration_pass ps prob s' g' = (r, s1, g1) \<and>
     identity_of q = identity_of p \<and> is_alive q = is_alive p \<and>
     is_treated q = is_treated p \<and> has_left q = has_left p"
proof (cases "\<not> is_alive p \<or> has_left p \<or> is_treated p")
  case True
  then obtain r where "deterioration_pass ps prob s g = (r, s1, g1)" "qs = p # r"
    using assms by (auto split: prod.splits if_splits)
  then show ?thesis by blast
next
  case False
  obtain w q g2 where d: "deteriorate_severity_if_needed p prob g = (w, q, g2)"
    by (metis prod_cases3)
  let ?s = "if w then s\<lparr>patients_deteriorated := patients_deteriorated s @ [patient_id q],
              summary_notes := summary_notes s @ [deterioration_note q]\<rparr> else s"
  obtain r where "deterioration_pass ps prob ?s g2 = (r, s1, g1)" "qs = q # r"
    using assms False d by (auto simp add: Let_def split: prod.splits if_splits)
  with deteriorate_keeps [OF d] show ?thesis by blast
qed

subsection \<open>A round that starts without a bed\<close>

lemma no_beds_shocks:
  assumes "available_beds (hospital gs) \<le> 0"
    and "apply_environment_shocks gs s prob g = (gs1, s1, prob1, g1)"
  shows "available_beds (hospital gs1) \<le> 0 \<and> patients gs1 = patients gs \<and>
     patients_treated s1 = patients_treated s"
  using assms
  by (auto simp add: apply_environment_shocks_def rng_random_def Let_def add_notes_def
        split: if_splits prod.splits)

lemma no_beds_resolve_outcome:
  assumes "i < length (patients gs)" and "is_treated p = is_treated (patients gs ! i)"
  shows "available_beds (hospital (fst (resolve_outcome i pid p v t d tr (gs, s, g)))) =
       available_beds (hospital gs) \<and>
     map is_treated (patients (fst (resolve_outcome i pid p v t d tr (gs, s, g)))) =
       map is_treated (patients gs) \<and>
     patients_treated (fst (snd (resolve_outcome i pid p v t d tr (gs, s, g)))) =
       patients_treated s"
  using assms
  by (simp add: resolve_outcome_unfold Let_def update_metrics_hospital put_patient_def
        explain_decision_and_outcome_def map_update list_update_same_conv)

lemma no_beds_resolve_transfer:
  assumes "i < length (patients gs)" and "is_treated p = is_treated (patients gs ! i)"
  shows "available_beds (hospital (fst (resolve_transfer i pid p v t d (gs, s, g)))) =
       available_beds (hospital gs) \<and>
     map is_treated (patients (fst (resolve_transfer i pid p v t d (gs, s, g)))) =
       map is_treated (patients gs) \<and>
     patients_treated (fst (snd (resolve_transfer i pid p v t d (gs, s, g)))) =
       patients_treated s"
  using assms
  by (simp add: resolve_transfer_unfold Let_def update_metrics_hospital put_patient_def
        explain_decision_and_outcome_def map_update list_update_same_conv)

lemma no_beds_apply_decision:
  assumes "available_beds (hospital gs) \<le> 0"
  shows "available_beds (hospital (fst (apply_decision pd (gs, s, g)))) \<le> 0 \<and>
     map is_treated (patients (fst (apply_decision pd (gs, s, g)))) =
       map is_treated (patients gs) \<and>
     patients_treated (fst (snd (apply_decision pd (gs, s, g)))) = patients_treated s"
proof (cases pd)
  case (Pair pid d)
  show ?thesis
  proof (cases "get_patient_by_id gs pid")
    case None
    with Pair assms show ?thesis by (simp add: apply_decision_def)
  next
    case (Some ip)
    obtain i p where ip: "ip = (i, p)" by (cases ip)
    have f: "i < length (patients gs)" "is_treated p = is_treated (patients gs ! i)"
      using Some ip find_patient_Some [of "patients gs" pid i p]
      by (simp_all add: get_patient_by_id_def)
    show ?thesis
      using Pair Some ip assms no_beds_resolve_outcome [OF f] no_beds_resolve_transfer [OF f]
      by (simp add: apply_decision_def Let_def add_notes_def)
  qed
qed

lemma no_beds_apply_decisions:
  assumes "available_beds (hospital gs) \<le> 0"
  shows "map is_treated (patients (fst (apply_decisions ds (gs, s, g)))) =
       map is_treated (patients gs) \<and>
     patients_treated (fst (snd (apply_decisions ds (gs, s, g)))) = patients_treated s"
  using assms
proof (induction ds arbitrary: gs s g)
  case Nil
  then show ?case by simp
next
  case (Cons pd ds)
  obtain gs2 s2 g2 where a: "apply_decision pd (gs, s, g) = (gs2, s2, g2)"
    by (metis prod_cases3)
  from no_beds_apply_decision [OF Cons.prems, of pd s g] a
  have b: "available_beds (hospital gs2) \<le> 0"
    "map is_treated (patients gs2) = map is_treated (patients gs)"
    "patients_treated s2 = patients_treated s"
    by simp_all
  from Cons.IH [OF b(1), of s2 g2] a b show ?case by simp
qed

lemma deterioration_pass_treated:
  "deterioration_pass ps prob s g = (qs, s1, g1) \<Longrightarrow>
   map is_treated qs = map is_treated ps \<and> patients_treated s1 = patients_treated s"
proof (induction ps arbitrary: s g qs)
  case Nil
  then show ?case by simp
next
  case (Cons p ps)
  show ?case
  proof (cases "\<not> is_alive p \<or> has_left p \<or> is_treated p")
    case True
    then obtain r where "deterioration_pass ps prob s g = (r, s1, g1)" "qs = p # r"
      using Cons.prems by (auto split: prod.splits if_splits)
    then show ?thesis using Cons.IH by auto
  next
    case False
    obtain w q g2 where d: "deteriorate_severity_if_needed p prob g = (w, q, g2)"
      by (metis prod_cases3)
    let ?s = "if w then s\<lparr>patients_deteriorated := patients_deteriorated s @ [patient_id q],
                summary_notes := summary_notes s @ [deterioration_note q]\<rparr> else s"
    obtain r where r: "deterioration_pass ps prob ?s g2 = (r, s1, g1)" "qs = q # r"
      using Cons.prems False d by (auto simp add: Let_def split: prod.splits if_splits)
    from Cons.IH [OF r(1)] r(2) deteriorate_keeps [OF d] show ?thesis
      by (simp split: if_splits)
  qed
qed

lemma no_beds_nobody_treated:
  assumes "available_beds (hospital gs) \<le> 0"
  shows "map is_treated (patients (fst (apply_player_decisions gs ds g))) =
       map is_treated (patients gs) \<and>
     patients_treated (fst (snd (apply_player_decisions gs ds g))) = []"
proof -
  obtain gs1 s1 prob1 g1 where a:
    "apply_environment_shocks gs ((new_RoundSummary (current_round gs))\<lparr>decisions := ds\<rparr>)
       (deterioration_probability (difficulty gs)) g = (gs1, s1, prob1, g1)"
    by (metis prod_cases4)
  obtain gs2 s2 g2 where b: "apply_decisions ds (gs1, s1, g1) = (gs2, s2, g2)"
    by (metis prod_cases3)
  obtain ps3 s3 g3 where c: "deterioration_pass (patients gs2) prob1 s2 g2 = (ps3, s3, g3)"
    by (metis prod_cases3)
  from no_beds_shocks [OF assms a]
  have a1: "available_beds (hospital gs1) \<le> 0" "patients gs1 = patients gs"
    "patients_treated s1 = []"
    by (simp_all add: new_RoundSummary_def)
  from no_beds_apply_decisions [OF a1(1), of ds s1 g1] b a1
  have b1: "map is_treated (patients gs2) = map is_treated (patients gs)"
    "patients_treated s2 = []"
    by simp_all
  from deterioration_pass_treated [OF c] b1
  have "map is_treated ps3 = map is_treated (patients gs)" "patients_treated s3 = []"
    by simp_all
  then show ?thesis
    by (simp add: apply_player_decisions_def Let_def a b c)
qed

subsection \<open>Coercion of Treat now to Defer\<close>


subsection \<open>The narrative explanation\<close>

lemma embed_base: "\<exists>pre post. q @ rest = pre @ q @ post"
  by (metis append_Nil)

lemma embed_step: "\<exists>pre post. ys = pre @ q @ post \<Longrightarrow> \<exists>pre post. xs @ ys = pre @ q @ post"
  by (metis append_assoc)

lemma explanation_embeds_quality:
  "\<exists>pre post. explanation p v t d tr died = pre @ quality d t @ post"
  unfolding explanation_def Let_def
  by (intro embed_base embed_step)

lemma explanation_same_id:
  "patient_id p1 = patient_id p2 \<Longrightarrow>
   explanation p1 v t d tr died = explanation p2 v t d tr died"
  unfolding explanation_def by (simp only:)

lemma quality_table:
  "quality d t =
     (if t = SEVERE \<or> t = CRITICAL then
        (case d of
           TREAT_NOW \<Rightarrow> ''aligned with the high true risk''
         | MONITOR \<Rightarrow> ''risky given the underlying severity''
         | DEFER \<Rightarrow> ''risky given the underlying severity''
         | TRANSFER \<Rightarrow> ''high-risk, depending on external capacity'')
      else
        (case d of
           TREAT_NOW \<Rightarrow> ''conservative, using resources on a lower-risk patient''
         | _ \<Rightarrow> ''reasonable for the estimated risk''))"
  unfolding quality_def
  by (cases d; cases t) (simp_all only: TriageDecision.simps SeverityLevel.simps
       insert_iff empty_iff simp_thms if_True if_False)

text \<open>
  C9. The explanation generator is deterministic in its inputs: two calls with the
  same patient id, visible severity, true severity at decision time, decision,
  treated flag and death flag append the same text, whatever else the two patients
  and the two summaries hold. The text carries the quality phrase, which is a
  function of the decision and the true severity alone, with five values. The
  generator takes no draw: after a loop turn that ends with the explanation, the
  randomness source stands where the death draw left it.
\<close>

theorem explanation_deterministic:
  assumes "patient_id p1 = patient_id p2"
  shows
    "explain_decision_and_outcome s1 p1 v t d tr died =
       s1\<lparr>summary_notes := summary_notes s1 @ [explanation p1 v t d tr died]\<rparr> \<and>
     explain_decision_and_outcome s2 p2 v t d tr died =
       s2\<lparr>summary_notes := summary_notes s2 @ [explanation p1 v t d tr died]\<rparr> \<and>
     (\<exists>pre post. explanation p1 v t d tr died = pre @ quality d t @ post) \<and>
     quality d t =
       (if t = SEVERE \<or> t = CRITICAL then
          (case d of
             TREAT_NOW \<Rightarrow> ''aligned with the high true risk''
           | MONITOR \<Rightarrow> ''risky given the underlying severity''
           | DEFER \<Rightarrow> ''risky given the underlying severity''
           | TRANSFER \<Rightarrow> ''high-risk, depending on external capacity'')
        else
          (case d of
             TREAT_NOW \<Rightarrow> ''conservative, using resources on a lower-risk patient''
           | _ \<Rightarrow> ''reasonable for the estimated risk'')) \<and>
     snd (snd (resolve_outcome i pid p1 v t d tr (gs, s1, g))) = snd (rng_random g) \<and>
     snd (snd (resolve_transfer i pid p1 v t d (gs, s1, g))) = snd (rng_random g)"
proof -
  have a: "explain_decision_and_outcome s1 p1 v t d tr died =
       s1\<lparr>summary_notes := summary_notes s1 @ [explanation p1 v t d tr died]\<rparr>"
    by (simp only: explain_decision_and_outcome_def)
  have b: "explain_decision_and_outcome s2 p2 v t d tr died =
       s2\<lparr>summary_notes := summary_notes s2 @ [explanation p1 v t d tr died]\<rparr>"
    by (simp only: explain_decision_and_outcome_def explanation_same_id [OF assms])
  have c: "snd (snd (resolve_outcome i pid p1 v t d tr (gs, s1, g))) = snd (rng_random g)"
    by (simp add: resolve_outcome_unfold Let_def rng_random_def)
  have e: "snd (snd (resolve_transfer i pid p1 v t d (gs, s1, g))) = snd (rng_random g)"
    by (simp add: resolve_transfer_unfold Let_def rng_random_def)
  from a b c e explanation_embeds_quality [of p1 v t d tr died] quality_table [of d t]
  show ?thesis by (simp only: simp_thms)
qed

text \<open>
  Two patients with the id 7 who differ in name, severity and flags, and two
  different summaries: the text appended is the same, and it is the text below.
\<close>

theorem explanation_deterministic_witness:
  "summary_notes (explain_decision_and_outcome (new_RoundSummary 1) (example_patient 7 MILD)
       MILD SEVERE MONITOR False True) =
     [''Patient 7: appeared mild, true severity severe. You chose to monitor, which was risky given the underlying severity. As a result, the patient died this round. You did not allocate full treatment capacity this round. Note: the patient appeared mild, but was actually severe, illustrating diagnostic uncertainty.''] \<and>
   summary_notes (explain_decision_and_outcome
       ((new_RoundSummary 2)\<lparr>summary_notes := [''earlier note'']\<rparr>)
       ((example_patient 7 CRITICAL)\<lparr>name := ''Someone else'', is_treated := True\<rparr>)
       MILD SEVERE MONITOR False True) =
     [''earlier note'',
      ''Patient 7: appeared mild, true severity severe. You chose to monitor, which was risky given the underlying severity. As a result, the patient died this round. You did not allocate full treatment capacity this round. Note: the patient appeared mild, but was actually severe, illustrating diagnostic uncertainty.'']"
proof -
  have i: "patient_id (example_patient 7 MILD) =
      patient_id ((example_patient 7 CRITICAL)\<lparr>name := ''Someone else'', is_treated := True\<rparr>)"
    by (simp add: example_patient_def new_Patient_def)
  have s: "str_int 7 = ''7''"
    by (simp add: str_int_def str_nat.simps digit_char_def)
  have x: "explanation (example_patient 7 MILD) MILD SEVERE MONITOR False True =
    ''Patient 7: appeared mild, true severity severe. You chose to monitor, which was risky given the underlying severity. As a result, the patient died this round. You did not allocate full treatment capacity this round. Note: the patient appeared mild, but was actually severe, illustrating diagnostic uncertainty.''"
    by (simp add: explanation_def example_patient_def new_Patient_def quality_def s)
  show ?thesis
    using explanation_deterministic [OF i, where ?s1.0 = "new_RoundSummary 1"
        and ?s2.0 = "(new_RoundSummary 2)\<lparr>summary_notes := [''earlier note'']\<rparr>"
        and v = MILD and t = SEVERE and d = MONITOR and tr = False and died = True]
    by (simp only: x) (simp add: new_RoundSummary_def)
qed

subsection \<open>Frame of a round\<close>

lemma frame_update_metrics:
  "frame_of (update_metrics_for_patient_outcome gs p died d) = frame_of gs"
  by (simp add: update_metrics_hospital frame_of_def)

lemma frame_put_patient:
  "i < length (patients gs) \<Longrightarrow> identity_of q = identity_of (patients gs ! i) \<Longrightarrow>
   frame_of (put_patient gs i q) = frame_of gs"
  by (simp add: frame_of_def put_patient_def map_update list_update_same_conv)

lemma frame_resolve_outcome:
  assumes "i < length (patients gs)" and "identity_of p = identity_of (patients gs ! i)"
  shows "frame_of (fst (resolve_outcome i pid p v t d tr (gs, s, g))) = frame_of gs"
proof -
  have "identity_of (p\<lparr>is_alive := False\<rparr>) = identity_of (patients gs ! i)"
    using assms(2) by (simp add: identity_of_def)
  with assms show ?thesis
    by (simp add: resolve_outcome_unfold Let_def frame_update_metrics frame_put_patient)
qed

lemma frame_resolve_transfer:
  assumes "i < length (patients gs)" and "identity_of p = identity_of (patients gs ! i)"
  shows "frame_of (fst (resolve_transfer i pid p v t d (gs, s, g))) = frame_of gs"
proof -
  have "\<And>b. identity_of (p\<lparr>has_left := True, is_alive := b\<rparr>) = identity_of (patients gs ! i)"
    using assms(2) by (simp add: identity_of_def)
  with assms show ?thesis
    by (simp add: resolve_transfer_unfold Let_def frame_update_metrics frame_put_patient)
qed

lemma frame_apply_decision: "frame_of (fst (apply_decision pd (gs, s, g))) = frame_of gs"
proof (cases pd)
  case (Pair pid d)
  show ?thesis
  proof (cases "get_patient_by_id gs pid")
    case None
    with Pair show ?thesis by (simp add: apply_decision_def)
  next
    case (Some ip)
    obtain i p where ip: "ip = (i, p)" by (cases ip)
    have f: "i < length (patients gs)" "patients gs ! i = p"
      using Some ip find_patient_Some [of "patients gs" pid i p]
      by (simp_all add: get_patient_by_id_def)
    let ?pt = "p\<lparr>is_treated := True\<rparr>"
    let ?gt = "(put_patient gs i ?pt)
                 \<lparr>hospital := (hospital gs)
                    \<lparr>staff_capacity_this_round := staff_capacity_this_round (hospital gs) - 1,
                     available_beds := available_beds (hospital gs) - 1\<rparr>\<rparr>"
    have t1: "i < length (patients ?gt)" "identity_of ?pt = identity_of (patients ?gt ! i)"
      using f by (simp_all add: put_patient_def)
    have t2: "frame_of ?gt = frame_of gs"
      using f by (simp add: frame_of_def put_patient_def map_update list_update_same_conv
          identity_of_def)
    have o: "identity_of p = identity_of (patients gs ! i)" using f by simp
    show ?thesis
      using Pair Some ip frame_resolve_outcome [OF t1] t2
        frame_resolve_outcome [OF f(1) o] frame_resolve_transfer [OF f(1) o]
      by (simp add: apply_decision_def Let_def)
  qed
qed

lemma frame_apply_decisions: "frame_of (fst (apply_decisions ds st)) = frame_of (fst st)"
proof (induction ds arbitrary: st)
  case Nil
  then show ?case by simp
next
  case (Cons pd ds)
  obtain gs s g where st: "st = (gs, s, g)" by (cases st)
  have "frame_of (fst (apply_decisions ds (apply_decision pd st))) =
      frame_of (fst (apply_decision pd st))"
    by (rule Cons.IH)
  then show ?case by (simp add: st frame_apply_decision)
qed

lemma frame_shocks:
  "frame_of (fst (apply_environment_shocks gs s prob g)) = frame_of gs"
  by (simp add: apply_environment_shocks_def rng_random_def Let_def frame_of_def
        split: prod.splits)

lemma deterioration_pass_identity:
  "deterioration_pass ps prob s g = (qs, s1, g1) \<Longrightarrow> map identity_of qs = map identity_of ps"
proof (induction ps arbitrary: s g qs)
  case Nil
  then show ?case by simp
next
  case (Cons p ps)
  from deterioration_pass_Cons [OF Cons.prems]
  obtain q r s' g' where "qs = q # r" "deterioration_pass ps prob s' g' = (r, s1, g1)"
    "identity_of q = identity_of p"
    by blast
  with Cons.IH show ?case by simp
qed

text \<open>
  C10. For every game state, decision map and sequence of draws,
  \<open>apply_player_decisions\<close> leaves \<open>current_round\<close>, \<open>difficulty\<close>,
  \<open>next_patient_id\<close> and \<open>history\<close> as they are, and the roster keeps its
  patients, in their order and number, each with its id, name, visible severity and
  arrival round: only the flags and the true severity of patients and the
  hospital state can differ.
\<close>

theorem apply_player_decisions_frame:
  "current_round (fst (apply_player_decisions gs ds g)) = current_round gs \<and>
   difficulty (fst (apply_player_decisions gs ds g)) = difficulty gs \<and>
   next_patient_id (fst (apply_player_decisions gs ds g)) = next_patient_id gs \<and>
   history (fst (apply_player_decisions gs ds g)) = history gs \<and>
   length (patients (fst (apply_player_decisions gs ds g))) = length (patients gs) \<and>
   map identity_of (patients (fst (apply_player_decisions gs ds g))) =
     map identity_of (patients gs)"
proof -
  obtain gs1 s1 prob1 g1 where a:
    "apply_environment_shocks gs ((new_RoundSummary (current_round gs))\<lparr>decisions := ds\<rparr>)
       (deterioration_probability (difficulty gs)) g = (gs1, s1, prob1, g1)"
    by (metis prod_cases4)
  obtain gs2 s2 g2 where b: "apply_decisions ds (gs1, s1, g1) = (gs2, s2, g2)"
    by (metis prod_cases3)
  obtain ps3 s3 g3 where c: "deterioration_pass (patients gs2) prob1 s2 g2 = (ps3, s3, g3)"
    by (metis prod_cases3)
  have f1: "frame_of gs1 = frame_of gs"
    using frame_shocks [of gs "(new_RoundSummary (current_round gs))\<lparr>decisions := ds\<rparr>"
        "deterioration_probability (difficulty gs)" g] a by simp
  have f2: "frame_of gs2 = frame_of gs1"
    using frame_apply_decisions [of ds "(gs1, s1, g1)"] b by simp
  have f3: "map identity_of ps3 = map identity_of (patients gs2)"
    using deterioration_pass_identity [OF c] .
  have r: "fst (apply_player_decisions gs ds g) =
      gs2\<lparr>patients := ps3,
          hospital := hospital (fst (apply_player_decisions gs ds g))\<rparr>"
    by (simp add: apply_player_decisions_def Let_def a b c)
  have "frame_of (fst (apply_player_decisions gs ds g)) = frame_of gs"
    using f1 f2 f3 by (subst r) (simp add: frame_of_def)
  then have m: "current_round (fst (apply_player_decisions gs ds g)) = current_round gs \<and>
      difficulty (fst (apply_player_decisions gs ds g)) = difficulty gs \<and>
      next_patient_id (fst (apply_player_decisions gs ds g)) = next_patient_id gs \<and>
      history (fst (apply_player_decisions gs ds g)) = history gs \<and>
      map identity_of (patients (fst (apply_player_decisions gs ds g))) =
        map identity_of (patients gs)"
    by (simp add: frame_of_def)
  then have "length (patients (fst (apply_player_decisions gs ds g))) = length (patients gs)"
    by (metis length_map)
  with m show ?thesis by simp
qed

subsection \<open>Bed accounting\<close>

lemma count_occupied_Cons:
  "count_occupied_beds (p # ps) = (if occupies_bed p then 1 else 0) + count_occupied_beds ps"
  by (simp add: count_occupied_beds_def)

lemma count_occupied_update:
  "i < length ps \<Longrightarrow>
   count_occupied_beds (ps[i := q]) =
     count_occupied_beds ps - (if occupies_bed (ps ! i) then 1 else 0)
       + (if occupies_bed q then 1 else 0)"
proof (induction ps arbitrary: i)
  case Nil
  then show ?case by simp
next
  case (Cons p ps)
  show ?case
  proof (cases i)
    case 0
    then show ?thesis by (simp add: count_occupied_Cons)
  next
    case (Suc j)
    with Cons.prems have "j < length ps" by simp
    from Cons.IH [OF this] Suc show ?thesis by (simp add: count_occupied_Cons)
  qed
qed

lemma count_occupied_append:
  "count_occupied_beds (ps @ qs) = count_occupied_beds ps + count_occupied_beds qs"
  by (simp add: count_occupied_beds_def)

lemma bed_invariant_update_metrics:
  "bed_invariant (update_metrics_for_patient_outcome gs p died d) = bed_invariant gs"
  by (simp add: update_metrics_hospital bed_invariant_def)

lemma bed_invariant_put_patient:
  assumes "i < length (patients gs)"
    and "occupies_bed q \<Longrightarrow> occupies_bed (patients gs ! i)"
    and "bed_invariant gs"
  shows "bed_invariant (put_patient gs i q)"
  using assms count_occupied_update [of i "patients gs" q]
  by (auto simp add: bed_invariant_def put_patient_def split: if_splits)

lemma bed_invariant_resolve_outcome:
  assumes "i < length (patients gs)"
    and "occupies_bed p \<Longrightarrow> occupies_bed (patients gs ! i)"
    and "bed_invariant gs"
  shows "bed_invariant (fst (resolve_outcome i pid p v t d tr (gs, s, g)))"
proof -
  have "bed_invariant (put_patient gs i (p\<lparr>is_alive := False\<rparr>))"
    using assms(1,3) by (intro bed_invariant_put_patient) (simp_all add: occupies_bed_def)
  moreover have "bed_invariant (put_patient gs i p)"
    using assms by (intro bed_invariant_put_patient)
  ultimately show ?thesis
    by (simp add: resolve_outcome_unfold Let_def bed_invariant_update_metrics)
qed

lemma bed_invariant_resolve_transfer:
  assumes "i < length (patients gs)" and "bed_invariant gs"
  shows "bed_invariant (fst (resolve_transfer i pid p v t d (gs, s, g)))"
proof -
  have "\<And>b. bed_invariant (put_patient gs i (p\<lparr>has_left := True, is_alive := b\<rparr>))"
    using assms by (intro bed_invariant_put_patient) (simp_all add: occupies_bed_def)
  then show ?thesis
    by (simp add: resolve_transfer_unfold Let_def bed_invariant_update_metrics)
qed

lemma bed_invariant_apply_decision:
  assumes "bed_invariant gs"
  shows "bed_invariant (fst (apply_decision pd (gs, s, g)))"
proof (cases pd)
  case (Pair pid d)
  show ?thesis
  proof (cases "get_patient_by_id gs pid")
    case None
    with Pair assms show ?thesis by (simp add: apply_decision_def)
  next
    case (Some ip)
    obtain i p where ip: "ip = (i, p)" by (cases ip)
    have f: "i < length (patients gs)" "patients gs ! i = p"
      using Some ip find_patient_Some [of "patients gs" pid i p]
      by (simp_all add: get_patient_by_id_def)
    let ?pt = "p\<lparr>is_treated := True\<rparr>"
    let ?gt = "(put_patient gs i ?pt)
                 \<lparr>hospital := (hospital gs)
                    \<lparr>staff_capacity_this_round := staff_capacity_this_round (hospital gs) - 1,
                     available_beds := available_beds (hospital gs) - 1\<rparr>\<rparr>"
    have t1: "i < length (patients ?gt)" "occupies_bed ?pt \<Longrightarrow> occupies_bed (patients ?gt ! i)"
      using f by (simp_all add: put_patient_def)
    have t2: "bed_invariant ?gt" if "0 < available_beds (hospital gs)"
      using that assms f count_occupied_update [of i "patients gs" ?pt]
      by (auto simp add: bed_invariant_def put_patient_def split: if_splits)
    have o: "occupies_bed p \<Longrightarrow> occupies_bed (patients gs ! i)" using f by simp
    have r1: "bed_invariant (fst (resolve_outcome i pid ?pt v t d' tr (?gt, s', g)))"
      if "0 < available_beds (hospital gs)" for v t d' tr s'
      using bed_invariant_resolve_outcome [OF t1 t2 [OF that]] .
    have r2: "bed_invariant (fst (resolve_outcome i pid p v t d' tr (gs, s', g)))"
      for v t d' tr s'
      using bed_invariant_resolve_outcome [OF f(1) o assms] .
    have r3: "bed_invariant (fst (resolve_transfer i pid p v t d' (gs, s', g)))"
      for v t d' s'
      using bed_invariant_resolve_transfer [OF f(1) assms] .
    show ?thesis
      using Pair Some ip assms r1 r2 r3
      by (simp add: apply_decision_def Let_def)
  qed
qed

lemma bed_invariant_apply_decisions:
  "bed_invariant (fst st) \<Longrightarrow> bed_invariant (fst (apply_decisions ds st))"
proof (induction ds arbitrary: st)
  case Nil
  then show ?case by simp
next
  case (Cons pd ds)
  obtain gs s g where st: "st = (gs, s, g)" by (cases st)
  with Cons.prems have "bed_invariant (fst (apply_decision pd st))"
    by (simp add: bed_invariant_apply_decision)
  then show ?case using Cons.IH by simp
qed

lemma bed_invariant_shocks:
  assumes "bed_invariant gs"
  shows "bed_invariant (fst (apply_environment_shocks gs s prob g))"
  using assms
  by (auto simp add: apply_environment_shocks_def rng_random_def Let_def bed_invariant_def
        split: prod.splits)

lemma deterioration_pass_count:
  "deterioration_pass ps prob s g = (qs, s1, g1) \<Longrightarrow>
   count_occupied_beds qs = count_occupied_beds ps"
proof (induction ps arbitrary: s g qs)
  case Nil
  then show ?case by (simp add: count_occupied_beds_def)
next
  case (Cons p ps)
  from deterioration_pass_Cons [OF Cons.prems]
  obtain q r s' g' where q: "qs = q # r" "deterioration_pass ps prob s' g' = (r, s1, g1)"
    "is_alive q = is_alive p" "is_treated q = is_treated p" "has_left q = has_left p"
    by blast
  then have "count_occupied_beds r = count_occupied_beds ps" using Cons.IH by blast
  with q show ?case by (simp add: count_occupied_Cons occupies_bed_def)
qed

lemma apply_player_decisions_beds:
  assumes "bed_invariant gs"
  shows "available_beds (hospital (fst (apply_player_decisions gs ds g))) =
       MAX_BEDS - count_occupied_beds (patients (fst (apply_player_decisions gs ds g))) \<and>
     count_occupied_beds (patients (fst (apply_player_decisions gs ds g))) \<le> MAX_BEDS"
proof -
  obtain gs1 s1 prob1 g1 where a:
    "apply_environment_shocks gs ((new_RoundSummary (current_round gs))\<lparr>decisions := ds\<rparr>)
       (deterioration_probability (difficulty gs)) g = (gs1, s1, prob1, g1)"
    by (metis prod_cases4)
  obtain gs2 s2 g2 where b: "apply_decisions ds (gs1, s1, g1) = (gs2, s2, g2)"
    by (metis prod_cases3)
  obtain ps3 s3 g3 where c: "deterioration_pass (patients gs2) prob1 s2 g2 = (ps3, s3, g3)"
    by (metis prod_cases3)
  have "bed_invariant gs1"
    using bed_invariant_shocks [OF assms, of "(new_RoundSummary (current_round gs))
        \<lparr>decisions := ds\<rparr>" "deterioration_probability (difficulty gs)" g] a by simp
  then have "bed_invariant gs2"
    using bed_invariant_apply_decisions [of "(gs1, s1, g1)" ds] b by simp
  then have "count_occupied_beds ps3 \<le> MAX_BEDS"
    using deterioration_pass_count [OF c] by (simp add: bed_invariant_def)
  then show ?thesis
    by (simp add: apply_player_decisions_def Let_def a b c)
qed

lemma bed_invariant_apply_player_decisions:
  assumes "bed_invariant gs"
  shows "bed_invariant (fst (apply_player_decisions gs ds g))"
  using apply_player_decisions_beds [OF assms, of ds g]
  by (simp add: bed_invariant_def)

lemma generate_loop_beds:
  "generate_loop n d sp gs new g = (gs1, new1, g1) \<Longrightarrow>
   hospital gs1 = hospital gs \<and>
   count_occupied_beds (patients gs1) = count_occupied_beds (patients gs)"
proof (induction n arbitrary: gs new g)
  case 0
  then show ?case by simp
next
  case (Suc n)
  obtain ts g2 where t: "sample_true_severity sp g = (ts, g2)" by (cases "sample_true_severity sp g")
  obtain vs g3 where v: "noisy_visible_severity ts d g2 = (vs, g3)"
    by (cases "noisy_visible_severity ts d g2")
  let ?p = "new_Patient (next_patient_id gs) (''Patient '' @ str_int (next_patient_id gs)) vs ts
              (current_round gs)"
  let ?gs = "gs\<lparr>next_patient_id := next_patient_id gs + 1, patients := patients gs @ [?p]\<rparr>"
  have "generate_loop n d sp ?gs (new @ [?p]) g3 = (gs1, new1, g1)"
    using Suc.prems t v by (simp add: Let_def)
  from Suc.IH [OF this] show ?case
    by (simp add: count_occupied_append count_occupied_beds_def occupies_bed_def new_Patient_def)
qed

lemma bed_invariant_generate:
  assumes "bed_invariant gs" and "generate_new_patients_for_round gs g = (gs1, new1, g1)"
  shows "bed_invariant gs1"
proof -
  obtain n g2 where "generate_loop n (difficulty gs) (severe_probability (difficulty gs)) gs [] g2
      = (gs1, new1, g1)"
    using assms(2)
    by (auto simp add: generate_new_patients_for_round_def Let_def split: prod.splits)
  from generate_loop_beds [OF this] assms(1) show ?thesis
    by (simp add: bed_invariant_def)
qed

lemma reachable_bed_invariant: "reachable gs \<Longrightarrow> bed_invariant gs"
proof (induction rule: reachable.induct)
  case (reachable_new d)
  show ?case
    by (simp add: bed_invariant_def new_GameState_def new_HospitalState_def
          count_occupied_beds_def MAX_BEDS_def)
next
  case (reachable_generate gs g gs1 new_patients g1)
  then show ?case using bed_invariant_generate by blast
next
  case (reachable_apply gs ds g gs1 summary g1)
  then show ?case using bed_invariant_apply_player_decisions [of gs ds g] by simp
next
  case (reachable_add_summary gs summary)
  then show ?case by (simp add: bed_invariant_def add_round_summary_def)
next
  case (reachable_increment gs)
  then show ?case by (simp add: bed_invariant_def increment_round_def)
qed

text \<open>
  C2. For every game state that the program can reach, after
  \<open>apply_player_decisions\<close> the number of available beds is exactly \<open>MAX_BEDS\<close>
  minus the number of patients who are alive, treated and have not left, and that
  number is at most \<open>MAX_BEDS\<close>, so the clamp at 0 does not take effect.
\<close>

theorem available_beds_exact:
  assumes "reachable gs"
  shows "available_beds (hospital (fst (apply_player_decisions gs ds g))) =
       MAX_BEDS - int (length (filter (\<lambda>p. is_alive p \<and> is_treated p \<and> \<not> has_left p)
                           (patients (fst (apply_player_decisions gs ds g))))) \<and>
     int (length (filter (\<lambda>p. is_alive p \<and> is_treated p \<and> \<not> has_left p)
            (patients (fst (apply_player_decisions gs ds g))))) \<le> MAX_BEDS"
proof -
  have e: "occupies_bed = (\<lambda>p. is_alive p \<and> is_treated p \<and> \<not> has_left p)"
    by (rule ext) (simp add: occupies_bed_def)
  show ?thesis
    using apply_player_decisions_beds [OF reachable_bed_invariant [OF assms], of ds g]
    by (simp add: count_occupied_beds_def e)
qed

text \<open>
  After the first round of the example, with every draw 0.9 (nobody dies, nobody
  deteriorates), one patient occupies a bed and 4 of the 5 beds are available.
\<close>

theorem available_beds_exact_witness:
  "available_beds (hospital (fst (apply_player_decisions first_round_state
      first_round_decisions (fixed_rng [0.9, 0.9, 0.9])))) = 4 \<and>
   map occupies_bed (patients (fst (apply_player_decisions first_round_state
      first_round_decisions (fixed_rng [0.9, 0.9, 0.9])))) = [True, False, False]"
proof -
  have "generate_new_patients_for_round (new_GameState BASIC) (fixed_rng []) =
      (first_round_state,
       fst (snd (generate_new_patients_for_round (new_GameState BASIC) (fixed_rng []))),
       snd (snd (generate_new_patients_for_round (new_GameState BASIC) (fixed_rng []))))"
    by (simp add: first_round_state_def)
  then have r: "reachable first_round_state"
    by (rule reachable_generate [OF reachable_new])
  have s: "str_int 1 = ''1''" "str_int 2 = ''2''" "str_int 3 = ''3''"
    by (simp_all add: str_int_def str_nat.simps digit_char_def)
  have g: "first_round_state =
      (new_GameState BASIC)
        \<lparr>next_patient_id := 4,
         patients := [example_patient 1 SEVERE, example_patient 2 SEVERE,
                      example_patient 3 SEVERE]\<rparr>"
    by (simp add: first_round_state_def generate_new_patients_for_round_def Let_def
          patients_per_round_def BASIC_PATIENTS_PER_ROUND_def rng_randint_def rng_index_def
          fixed_rng_def numeral_3_eq_3 sample_true_severity_def rng_random_def
          severe_probability_def BASIC_SEVERE_PROB_def noisy_visible_severity_def
          int_to_severity_def new_GameState_def example_patient_def s)
  have m: "map occupies_bed (patients (fst (apply_player_decisions first_round_state
      first_round_decisions (fixed_rng [0.9, 0.9, 0.9])))) = [True, False, False]"
    unfolding g
    by (simp add: apply_player_decisions_def first_round_decisions_def Let_def
          apply_environment_shocks_def new_GameState_def new_HospitalState_def
          apply_decision_def get_patient_by_id_def example_patient_def new_Patient_def
          MAX_BEDS_def MAX_STAFF_CAPACITY_def resolve_outcome_unfold resolve_transfer_unfold
          update_metrics_hospital put_patient_def death_probability_def fixed_rng_def
          deteriorate_severity_if_needed_def rng_random_def occupies_bed_def
          deterioration_probability_def BASIC_DETERIORATE_PROB_def
          split: prod.splits)
  have c: "(\<lambda>p. is_alive p \<and> is_treated p \<and> \<not> has_left p) = occupies_bed"
    by (rule ext) (simp add: occupies_bed_def)
  have "length (filter id (map occupies_bed (patients (fst (apply_player_decisions
      first_round_state first_round_decisions (fixed_rng [0.9, 0.9, 0.9])))))) = 1"
    unfolding m by simp
  then have "length (filter occupies_bed (patients (fst (apply_player_decisions
      first_round_state first_round_decisions (fixed_rng [0.9, 0.9, 0.9]))))) = 1"
    by (simp add: filter_map comp_def)
  with m available_beds_exact [OF r, of first_round_decisions "fixed_rng [0.9, 0.9, 0.9]"]
  show ?thesis
    by (simp add: c MAX_BEDS_def)
qed

subsection \<open>A turn within a round\<close>

lemma apply_player_decisions_stages:
  "apply_player_decisions gs ds g =
     (case start_round gs ds g of
        (gs1, s1, prob, g1) \<Rightarrow> finish_round prob (apply_decisions ds (gs1, s1, g1)))"
  by (simp add: apply_player_decisions_def start_round_def finish_round_def Let_def
        split: prod.splits)

lemma apply_decisions_append:
  "apply_decisions (pre @ post) st = apply_decisions post (apply_decisions pre st)"
  by (induction pre arbitrary: st) simp_all

text \<open>A patient who has left is not touched by the turns that follow.\<close>

lemma left_stays_turn:
  assumes "i < length (patients gs)" and "has_left (patients gs ! i)"
  shows "patients (fst (apply_decision pd (gs, s, g))) ! i = patients gs ! i \<and>
     length (patients (fst (apply_decision pd (gs, s, g)))) = length (patients gs)"
proof (cases pd)
  case (Pair pid d)
  show ?thesis
  proof (cases "get_patient_by_id gs pid")
    case None
    with Pair show ?thesis by (simp add: apply_decision_def)
  next
    case (Some jq)
    obtain j q where jq: "jq = (j, q)" by (cases jq)
    have f: "j < length (patients gs)" "patients gs ! j = q"
      using Some jq find_patient_Some [of "patients gs" pid j q]
      by (simp_all add: get_patient_by_id_def)
    show ?thesis
    proof (cases "\<not> is_alive q \<or> has_left q")
      case True
      with Pair Some jq show ?thesis by (simp add: apply_decision_def)
    next
      case False
      with f assms(2) have "j \<noteq> i" by auto
      with Pair Some jq False show ?thesis
        by (simp add: apply_decision_def Let_def resolve_outcome_unfold
              resolve_transfer_unfold update_metrics_hospital put_patient_def)
    qed
  qed
qed

lemma left_stays_turns:
  assumes "i < length (patients gs)" and "has_left (patients gs ! i)"
  shows "patients (fst (apply_decisions ds (gs, s, g))) ! i = patients gs ! i \<and>
     length (patients (fst (apply_decisions ds (gs, s, g)))) = length (patients gs)"
  using assms
proof (induction ds arbitrary: gs s g)
  case Nil
  then show ?case by simp
next
  case (Cons pd ds)
  obtain gs2 s2 g2 where a: "apply_decision pd (gs, s, g) = (gs2, s2, g2)"
    by (metis prod_cases3)
  from left_stays_turn [OF Cons.prems, of pd s g] a
  have b: "patients gs2 ! i = patients gs ! i" "length (patients gs2) = length (patients gs)"
    by simp_all
  with Cons.prems have "i < length (patients gs2)" "has_left (patients gs2 ! i)"
    by simp_all
  from Cons.IH [OF this, of s2 g2] a b show ?case by simp
qed

lemma deterioration_pass_skips:
  "deterioration_pass ps prob s g = (qs, s1, g1) \<Longrightarrow> i < length ps \<Longrightarrow> has_left (ps ! i) \<Longrightarrow>
   qs ! i = ps ! i"
proof (induction ps arbitrary: i s g qs)
  case Nil
  then show ?case by simp
next
  case (Cons p ps)
  show ?case
  proof (cases i)
    case 0
    with Cons.prems have "has_left p" by simp
    then obtain r where "qs = p # r"
      using Cons.prems(1) by (auto split: prod.splits if_splits)
    with 0 show ?thesis by simp
  next
    case (Suc j)
    from deterioration_pass_Cons [OF Cons.prems(1)]
    obtain q r s' g' where q: "qs = q # r" "deterioration_pass ps prob s' g' = (r, s1, g1)"
      by blast
    from Cons.prems Suc have "j < length ps" "has_left (ps ! j)" by simp_all
    from Cons.IH [OF q(2) this] q(1) Suc show ?thesis by simp
  qed
qed

lemma left_stays_finish:
  assumes "i < length (patients gs)" and "has_left (patients gs ! i)"
  shows "patients (fst (finish_round prob (gs, s, g))) ! i = patients gs ! i"
proof -
  obtain ps3 s3 g3 where c: "deterioration_pass (patients gs) prob s g = (ps3, s3, g3)"
    by (metis prod_cases3)
  from deterioration_pass_skips [OF c assms] show ?thesis
    by (simp add: finish_round_def c Let_def)
qed

text \<open>Turns and the last stage only append to the notes and to the list of the dead.\<close>

lemma turn_appends:
  "apply_decision pd (gs, s, g) = (gs1, s1, g1) \<Longrightarrow>
   (\<exists>r. summary_notes s1 = summary_notes s @ r) \<and>
   (\<exists>r. patients_died s1 = patients_died s @ r)"
  by (cases pd)
     (auto simp add: apply_decision_def resolve_outcome_def resolve_transfer_def rng_random_def
        Let_def add_notes_def explain_decision_and_outcome_def
        split: option.splits prod.splits if_splits)

lemma turns_append:
  "apply_decisions ds (gs, s, g) = (gs1, s1, g1) \<Longrightarrow>
   (\<exists>r. summary_notes s1 = summary_notes s @ r) \<and>
   (\<exists>r. patients_died s1 = patients_died s @ r)"
proof (induction ds arbitrary: gs s g)
  case Nil
  then show ?case by simp
next
  case (Cons pd ds)
  obtain gs2 s2 g2 where a: "apply_decision pd (gs, s, g) = (gs2, s2, g2)"
    by (metis prod_cases3)
  with Cons.prems have "apply_decisions ds (gs2, s2, g2) = (gs1, s1, g1)" by simp
  from Cons.IH [OF this] turn_appends [OF a] show ?case
    by (metis append_assoc)
qed

lemma deterioration_pass_appends:
  "deterioration_pass ps prob s g = (qs, s1, g1) \<Longrightarrow>
   (\<exists>r. summary_notes s1 = summary_notes s @ r) \<and> patients_died s1 = patients_died s"
proof (induction ps arbitrary: s g qs)
  case Nil
  then show ?case by simp
next
  case (Cons p ps)
  show ?case
  proof (cases "\<not> is_alive p \<or> has_left p \<or> is_treated p")
    case True
    then obtain r where "deterioration_pass ps prob s g = (r, s1, g1)"
      using Cons.prems by (auto split: prod.splits if_splits)
    then show ?thesis using Cons.IH by blast
  next
    case False
    obtain w q g2 where d: "deteriorate_severity_if_needed p prob g = (w, q, g2)"
      by (metis prod_cases3)
    let ?s = "if w then s\<lparr>patients_deteriorated := patients_deteriorated s @ [patient_id q],
                summary_notes := summary_notes s @ [deterioration_note q]\<rparr> else s"
    obtain r where "deterioration_pass ps prob ?s g2 = (r, s1, g1)"
      using Cons.prems False d by (auto simp add: Let_def split: prod.splits if_splits)
    from Cons.IH [OF this]
    have "(\<exists>r. summary_notes s1 = summary_notes ?s @ r) \<and> patients_died s1 = patients_died ?s"
      .
    then show ?thesis by (auto split: if_splits)
  qed
qed

lemma finish_round_appends:
  "finish_round prob (gs, s, g) = (gs1, s1, g1) \<Longrightarrow>
   (\<exists>r. summary_notes s1 = summary_notes s @ r) \<and> patients_died s1 = patients_died s"
proof -
  assume a: "finish_round prob (gs, s, g) = (gs1, s1, g1)"
  obtain ps3 s3 g3 where c: "deterioration_pass (patients gs) prob s g = (ps3, s3, g3)"
    by (metis prod_cases3)
  from a have "s1 = s3" by (simp add: finish_round_def c Let_def)
  with deterioration_pass_appends [OF c] show ?thesis by simp
qed

text \<open>What the rest of a round does after a turn: the patient of the turn, once gone,
  stays as the turn left it, and the notes of the turn stay where they are.\<close>

lemma rest_of_round:
  assumes "i < length (patients tgs)" and "has_left (patients tgs ! i)"
  shows "patients (fst (finish_round prob (apply_decisions post (tgs, ts, tg)))) ! i =
       patients tgs ! i \<and>
     (\<exists>r. summary_notes (fst (snd (finish_round prob (apply_decisions post (tgs, ts, tg))))) =
            summary_notes ts @ r) \<and>
     (\<exists>r. patients_died (fst (snd (finish_round prob (apply_decisions post (tgs, ts, tg))))) =
            patients_died ts @ r)"
proof -
  obtain gs2 s2 g2 where b: "apply_decisions post (tgs, ts, tg) = (gs2, s2, g2)"
    by (metis prod_cases3)
  obtain gs3 s3 g3 where c: "finish_round prob (gs2, s2, g2) = (gs3, s3, g3)"
    by (metis prod_cases3)
  from left_stays_turns [OF assms, of post ts tg] b
  have l: "patients gs2 ! i = patients tgs ! i" "length (patients gs2) = length (patients tgs)"
    by simp_all
  with assms have "i < length (patients gs2)" "has_left (patients gs2 ! i)" by simp_all
  from left_stays_finish [OF this, of prob s2 g2] c l
  have p: "patients gs3 ! i = patients tgs ! i" by simp
  from turns_append [OF b] finish_round_appends [OF c]
  have "(\<exists>r. summary_notes s3 = summary_notes ts @ r) \<and>
      (\<exists>r. patients_died s3 = patients_died ts @ r)"
    by (metis append_assoc)
  with p show ?thesis by (simp add: b c)
qed


subsection \<open>Transfer within a round\<close>

text \<open>
  C5. Take a round of \<open>apply_player_decisions\<close> whose decision map holds Transfer
  for a patient, and the state in which the loop reaches that entry (after the
  shock and the earlier entries), where the patient is in the roster, alive and
  not gone. Then the engine sets \<open>has_left\<close>, samples death by one draw against
  the untreated probability with the factor 1.5, updates the metrics, where the
  reputation changes by the outcome delta and by +0.5 if \<open>available_beds \<le> 0\<close>
  or \<open>staff_capacity_this_round \<le> 0\<close> in that state and by -1.0 otherwise, and
  appends exactly one explanation; it takes no second draw and makes no second
  entry for the patient. The round goes on from there: what it returns is the
  rest of the loop and the last stage run on that state, the patient is in the
  returned roster as the turn left it, and the returned notes hold the
  explanation right after the notes that were there before the turn.
\<close>

theorem transfer_in_round:
  assumes "start_round gs (pre @ (pid, TRANSFER) # post) g = (gs0, s0, prob, g0)"
    and "apply_decisions pre (gs0, s0, g0) = (gs1, s1, g1)"
    and "get_patient_by_id gs1 pid = Some (i, p)" and "is_alive p" and "\<not> has_left p"
  shows
    "(let h = hospital gs1;
          death_prob = (case severity_hidden_true p of
                          MILD \<Rightarrow> 0.01 | MODERATE \<Rightarrow> 0.05 | SEVERE \<Rightarrow> 0.15
                        | CRITICAL \<Rightarrow> 0.30) * 1.5;
          died = draws g1 (position g1) < death_prob;
          scarce = (available_beds h \<le> 0 \<or> staff_capacity_this_round h \<le> 0);
          p1 = p\<lparr>has_left := True, is_alive := \<not> died\<rparr>;
          summary1 = (if died then s1\<lparr>patients_died := patients_died s1 @ [pid]\<rparr> else s1);
          expl = explanation p1 (severity_visible p) (severity_hidden_true p) TRANSFER
                   False died;
          turn =
            (gs1\<lparr>patients := (patients gs1)[i := p1],
                 hospital := h
                   \<lparr>survival_score :=
                      max 0 (min 100 (survival_score h + (if died then - 4.0 else 0.5))),
                    staff_stress :=
                      max 0 (min 100 (staff_stress h + (if died then 3.0 else 0))),
                    reputation :=
                      max 0 (min 100 (reputation h + (if died then - 2.0 else 0.5)
                                        + (if scarce then 0.5 else - 1.0)))\<rparr>\<rparr>,
             summary1\<lparr>summary_notes := summary_notes s1 @ [expl]\<rparr>,
             g1\<lparr>position := Suc (position g1)\<rparr>);
          result = apply_player_decisions gs (pre @ (pid, TRANSFER) # post) g
      in apply_decisions (pre @ [(pid, TRANSFER)]) (gs0, s0, g0) = turn
         \<and> result = finish_round prob (apply_decisions post turn)
         \<and> death_prob = death_probability (severity_hidden_true p) False TRANSFER
         \<and> patients (fst result) ! i = p1
         \<and> (\<exists>rest. summary_notes (fst (snd result)) = summary_notes s1 @ [expl] @ rest)
         \<and> (\<exists>rest. patients_died (fst (snd result)) = patients_died summary1 @ rest))"
proof -
  define died where "died = (draws g1 (position g1) <
      (case severity_hidden_true p of
         MILD \<Rightarrow> 0.01 | MODERATE \<Rightarrow> 0.05 | SEVERE \<Rightarrow> 0.15 | CRITICAL \<Rightarrow> 0.30) * 1.5)"
  define p1 where "p1 = p\<lparr>has_left := True, is_alive := \<not> died\<rparr>"
  define summary1 where
    "summary1 = (if died then s1\<lparr>patients_died := patients_died s1 @ [pid]\<rparr> else s1)"
  define expl where
    "expl = explanation p1 (severity_visible p) (severity_hidden_true p) TRANSFER False died"
  define tgs where "tgs =
     gs1\<lparr>patients := (patients gs1)[i := p1],
         hospital := (hospital gs1)
           \<lparr>survival_score :=
              max 0 (min 100 (survival_score (hospital gs1) + (if died then - 4.0 else 0.5))),
            staff_stress :=
              max 0 (min 100 (staff_stress (hospital gs1) + (if died then 3.0 else 0))),
            reputation :=
              max 0 (min 100 (reputation (hospital gs1) + (if died then - 2.0 else 0.5)
                + (if (available_beds (hospital gs1) \<le> 0 \<or>
                       staff_capacity_this_round (hospital gs1) \<le> 0)
                   then 0.5 else - 1.0)))\<rparr>\<rparr>"
  define ts where "ts = summary1\<lparr>summary_notes := summary_notes s1 @ [expl]\<rparr>"
  define tg where "tg = g1\<lparr>position := Suc (position g1)\<rparr>"
  define result where "result = apply_player_decisions gs (pre @ (pid, TRANSFER) # post) g"
  note defs = died_def p1_def summary1_def expl_def tgs_def ts_def tg_def
  have t: "apply_decision (pid, TRANSFER) (gs1, s1, g1) = (tgs, ts, tg)"
    and dp: "(case severity_hidden_true p of
         MILD \<Rightarrow> 0.01 | MODERATE \<Rightarrow> 0.05 | SEVERE \<Rightarrow> 0.15 | CRITICAL \<Rightarrow> 0.30) * 1.5 =
       death_probability (severity_hidden_true p) False TRANSFER"
    using transfer_turn [OF assms(3-5), where summary = s1 and g = g1]
    unfolding Let_def defs by blast+
  have a: "apply_decisions (pre @ [(pid, TRANSFER)]) (gs0, s0, g0) = (tgs, ts, tg)"
    by (simp add: apply_decisions_append assms(2) t)
  have r: "result = finish_round prob (apply_decisions post (tgs, ts, tg))"
    unfolding result_def
    by (simp add: apply_player_decisions_stages assms(1) apply_decisions_append assms(2) t)
  have i: "i < length (patients gs1)"
    using assms(3) find_patient_Some [of "patients gs1" pid i p]
    by (simp add: get_patient_by_id_def)
  then have l: "i < length (patients tgs)" "patients tgs ! i = p1" "has_left (patients tgs ! i)"
    by (simp_all add: tgs_def p1_def)
  from rest_of_round [OF l(1) l(3), of prob post ts tg] l(2) r
  have e: "patients (fst result) ! i = p1"
    "\<exists>rest. summary_notes (fst (snd result)) = summary_notes s1 @ [expl] @ rest"
    "\<exists>rest. patients_died (fst (snd result)) = patients_died summary1 @ rest"
    by (simp_all add: ts_def)
  from a r dp e show ?thesis
    unfolding Let_def defs result_def by blast
qed

text \<open>
  Two rounds. In the first, a Severe patient is transferred while no bed is
  available, with the draw 0.5 against the death probability 0.225: in what the
  round returns the patient is alive and gone, the reputation went from 60 to 61,
  the notes are the one explanation, and one draw was consumed. In the second, the
  first round of the example, patient 2 is transferred after patient 1 was
  treated, with 4 beds and 3 staff left: the reputation goes from 61 to 60.5, and
  the explanation of the transfer follows the one of the treatment.
\<close>

theorem transfer_in_round_witness:
  "patients (fst (apply_player_decisions scarce_state [(1, TRANSFER)] (fixed_rng [0.5]))) =
     [(example_patient 1 SEVERE)\<lparr>has_left := True\<rparr>] \<and>
   reputation (hospital (fst (apply_player_decisions scarce_state [(1, TRANSFER)]
     (fixed_rng [0.5])))) = 61 \<and>
   summary_notes (fst (snd (apply_player_decisions scarce_state [(1, TRANSFER)]
     (fixed_rng [0.5])))) =
     [explanation ((example_patient 1 SEVERE)\<lparr>has_left := True\<rparr>) SEVERE SEVERE TRANSFER
        False False] \<and>
   patients_died (fst (snd (apply_player_decisions scarce_state [(1, TRANSFER)]
     (fixed_rng [0.5])))) = [] \<and>
   position (snd (snd (apply_player_decisions scarce_state [(1, TRANSFER)]
     (fixed_rng [0.5])))) = 1 \<and>
   reputation (hospital (fst (apply_player_decisions first_round_state first_round_decisions
     (fixed_rng [0.9, 0.9, 0.9])))) = 60.5 \<and>
   map has_left (patients (fst (apply_player_decisions first_round_state
     first_round_decisions (fixed_rng [0.9, 0.9, 0.9])))) = [False, True, False] \<and>
   summary_notes (fst (snd (apply_player_decisions first_round_state first_round_decisions
     (fixed_rng [0.9, 0.9, 0.9])))) =
     [explanation ((example_patient 1 SEVERE)\<lparr>is_treated := True\<rparr>) SEVERE SEVERE
        TREAT_NOW True False,
      explanation ((example_patient 2 SEVERE)\<lparr>has_left := True\<rparr>) SEVERE SEVERE TRANSFER
        False False]"
proof -
  have a1: "start_round scarce_state ([] @ (1, TRANSFER) # []) (fixed_rng [0.5]) =
      (scarce_state, (new_RoundSummary 1)\<lparr>decisions := [(1, TRANSFER)]\<rparr>, 0.15,
       fixed_rng [0.5])"
    by (simp add: start_round_def apply_environment_shocks_def scarce_state_def
          new_GameState_def deterioration_probability_def BASIC_DETERIORATE_PROB_def)
  have a2: "apply_decisions []
      (scarce_state, (new_RoundSummary 1)\<lparr>decisions := [(1, TRANSFER)]\<rparr>, fixed_rng [0.5]) =
      (scarce_state, (new_RoundSummary 1)\<lparr>decisions := [(1, TRANSFER)]\<rparr>, fixed_rng [0.5])"
    by simp
  have a3: "get_patient_by_id scarce_state 1 = Some (0, example_patient 1 SEVERE)"
    by (simp add: get_patient_by_id_def scarce_state_def example_patient_def new_Patient_def
          new_GameState_def)
  have a4: "is_alive (example_patient i SEVERE)" for i
    by (simp add: example_patient_def new_Patient_def)
  have a5: "\<not> has_left (example_patient i SEVERE)" for i
    by (simp add: example_patient_def new_Patient_def)
  have s: "str_int 1 = ''1''" "str_int 2 = ''2''" "str_int 3 = ''3''"
    by (simp_all add: str_int_def str_nat.simps digit_char_def)
  have f: "first_round_state =
      (new_GameState BASIC)
        \<lparr>next_patient_id := 4,
         patients := [example_patient 1 SEVERE, example_patient 2 SEVERE,
                      example_patient 3 SEVERE]\<rparr>"
    by (simp add: first_round_state_def generate_new_patients_for_round_def Let_def
          patients_per_round_def BASIC_PATIENTS_PER_ROUND_def rng_randint_def rng_index_def
          fixed_rng_def numeral_3_eq_3 sample_true_severity_def rng_random_def
          severe_probability_def BASIC_SEVERE_PROB_def noisy_visible_severity_def
          int_to_severity_def new_GameState_def example_patient_def s)
  let ?s0 = "(new_RoundSummary 1)\<lparr>decisions := [(1, TREAT_NOW), (2, TRANSFER)]\<rparr>"
  let ?g0 = "fixed_rng [0.9, 0.9, 0.9]"
  let ?gs1 = "first_round_state
      \<lparr>patients := [(example_patient 1 SEVERE)\<lparr>is_treated := True\<rparr>,
                    example_patient 2 SEVERE, example_patient 3 SEVERE],
       hospital := \<lparr>available_beds = 4, staff_capacity_this_round = 3,
                    survival_score = 100, staff_stress = 11, reputation = 61\<rparr>\<rparr>"
  let ?s1 = "?s0\<lparr>patients_treated := [1],
      summary_notes := [explanation ((example_patient 1 SEVERE)\<lparr>is_treated := True\<rparr>)
                          SEVERE SEVERE TREAT_NOW True False]\<rparr>"
  let ?g1 = "?g0\<lparr>position := 1\<rparr>"
  have b1: "start_round first_round_state ([(1, TREAT_NOW)] @ (2, TRANSFER) # []) ?g0 =
      (first_round_state, ?s0, 0.15, ?g0)"
    by (simp add: f start_round_def apply_environment_shocks_def
          new_GameState_def deterioration_probability_def BASIC_DETERIORATE_PROB_def)
  have b2: "apply_decisions [(1, TREAT_NOW)] (first_round_state, ?s0, ?g0) = (?gs1, ?s1, ?g1)"
    by (simp add: f apply_decision_def get_patient_by_id_def Let_def new_GameState_def
          new_HospitalState_def MAX_BEDS_def MAX_STAFF_CAPACITY_def INITIAL_SURVIVAL_SCORE_def
          INITIAL_STAFF_STRESS_def INITIAL_REPUTATION_def example_patient_def new_Patient_def
          resolve_outcome_unfold update_metrics_hospital put_patient_def
          death_probability_def fixed_rng_def explain_decision_and_outcome_def
          new_RoundSummary_def)
  have b3: "get_patient_by_id ?gs1 2 = Some (1, example_patient 2 SEVERE)"
    by (simp add: get_patient_by_id_def example_patient_def new_Patient_def)
  show ?thesis
    using transfer_in_round [OF a1 a2 a3 a4 a5] transfer_in_round [OF b1 b2 b3 a4 a5]
    by (simp add: Let_def first_round_decisions_def f finish_round_def
          deteriorate_severity_if_needed_def rng_random_def fixed_rng_def
          count_occupied_beds_def occupies_bed_def MAX_BEDS_def scarce_state_def
          new_GameState_def new_HospitalState_def INITIAL_REPUTATION_def
          INITIAL_SURVIVAL_SCORE_def INITIAL_STAFF_STRESS_def MAX_STAFF_CAPACITY_def
          new_RoundSummary_def example_patient_def new_Patient_def)
qed

subsection \<open>Coercion within a round\<close>










end
